theory Spec2Isabelle
  imports Main
begin

section \<open>MongoInstance: options and the command builder\<close>

text \<open>
  The embedding follows \<^verbatim>\<open>packages/mongodb-memory-server-core/src/util/MongoInstance.ts\<close>.
  A JavaScript string is a \<^typ>\<open>string\<close>; an optional field \<^verbatim>\<open>f?: T\<close> is a
  \<^typ>\<open>'a option\<close> with \<^const>\<open>None\<close> for \<^verbatim>\<open>undefined\<close>. The port is a JavaScript
  number; the model covers the integers, as \<^typ>\<open>int\<close>.
\<close>

record MongoInstanceOpts =
  port :: "int option"
  ip :: "string option"
  storageEngine :: "string option"
  dbPath :: "string option"
  replSet :: "string option"
  args :: "string list option"
  auth :: "bool option"

subsection \<open>Number.prototype.toString on integers\<close>

definition digit_char :: "nat \<Rightarrow> char" where
  "digit_char d = ''0123456789'' ! (d mod 10)"

function show_nat :: "nat \<Rightarrow> string" where
  "show_nat n = (if n < 10 then [digit_char n] else show_nat (n div 10) @ [digit_char (n mod 10)])"
  by pat_completeness auto
termination
  by (relation "measure id") auto

declare show_nat.simps [simp del]

text \<open>Decimal text of an integer, as \<^verbatim>\<open>toString()\<close> prints every integer of magnitude
  below \<open>10\<^sup>2\<^sup>1\<close>.\<close>

definition number_toString :: "int \<Rightarrow> string" where
  "number_toString i = (if i < 0 then CHR ''-'' # show_nat (nat (- i)) else show_nat (nat i))"

subsection \<open>Truthiness\<close>

text \<open>\<^verbatim>\<open>!!x\<close> on an optional string: \<^verbatim>\<open>undefined\<close> and the empty string are falsy.\<close>

definition truthy_string :: "string option \<Rightarrow> bool" where
  "truthy_string v = (case v of None \<Rightarrow> False | Some x \<Rightarrow> x \<noteq> [])"

text \<open>\<^verbatim>\<open>!!x\<close> on an optional integer: \<^verbatim>\<open>undefined\<close> and \<open>0\<close> are falsy.\<close>

definition truthy_number :: "int option \<Rightarrow> bool" where
  "truthy_number v = (case v of None \<Rightarrow> False | Some n \<Rightarrow> n \<noteq> 0)"

text \<open>\<^verbatim>\<open>if (x)\<close> on an optional boolean.\<close>

definition truthy_bool :: "bool option \<Rightarrow> bool" where
  "truthy_bool v = (case v of None \<Rightarrow> False | Some b \<Rightarrow> b)"

subsection \<open>prepareCommandArgs\<close>

text \<open>
  \<^verbatim>\<open>result.push(a, b)\<close> appends; each \<^verbatim>\<open>if\<close> of the source is one step on the
  accumulated list, in the source's order.
\<close>

definition prepareCommandArgs :: "MongoInstanceOpts \<Rightarrow> string list" where
  "prepareCommandArgs opts =
    (let result0 = [];
         result1 = result0 @ [''--bind_ip'', (if truthy_string (ip opts) then the (ip opts) else ''127.0.0.1'')];
         result2 = (if truthy_number (port opts)
                    then result1 @ [''--port'', number_toString (the (port opts))] else result1);
         result3 = (if truthy_string (storageEngine opts)
                    then result2 @ [''--storageEngine'', the (storageEngine opts)] else result2);
         result4 = (if truthy_string (dbPath opts)
                    then result3 @ [''--dbpath'', the (dbPath opts)] else result3);
         result5 = (if truthy_bool (auth opts) then result4 @ [''--auth''] else result4 @ [''--noauth'']);
         result6 = (if truthy_string (replSet opts)
                    then result5 @ [''--replSet'', the (replSet opts)] else result5)
     in result6 @ (case args opts of None \<Rightarrow> [] | Some a \<Rightarrow> a))"

text \<open>The strings the caller supplies and the builder copies verbatim.\<close>

definition caller_strings :: "MongoInstanceOpts \<Rightarrow> string list" where
  "caller_strings opts =
     (case ip opts of None \<Rightarrow> [] | Some x \<Rightarrow> [x]) @
     (case storageEngine opts of None \<Rightarrow> [] | Some x \<Rightarrow> [x]) @
     (case dbPath opts of None \<Rightarrow> [] | Some x \<Rightarrow> [x]) @
     (case replSet opts of None \<Rightarrow> [] | Some x \<Rightarrow> [x]) @
     (case args opts of None \<Rightarrow> [] | Some a \<Rightarrow> a)"

lemma show_nat_digits: "set (show_nat n) \<subseteq> set ''0123456789''"
proof (induction n rule: show_nat.induct)
  case (1 n)
  have d: "\<And>k. digit_char k \<in> set ''0123456789''"
    unfolding digit_char_def by (rule nth_mem) simp
  show ?case
  proof (cases "n < 10")
    case True
    then show ?thesis using d [of n] by (subst show_nat.simps) simp
  next
    case False
    then show ?thesis using 1 d [of "n mod 10"] by (subst show_nat.simps) simp
  qed
qed

lemma show_nat_not_empty: "show_nat n \<noteq> []"
  by (subst show_nat.simps) simp

lemma show_nat_hd: "\<exists>d ds. show_nat n = d # ds \<and> d \<in> set ''0123456789''"
proof -
  obtain d ds where e: "show_nat n = d # ds"
    using show_nat_not_empty [of n] by (cases "show_nat n") auto
  moreover have "d \<in> set ''0123456789''"
    using show_nat_digits [of n] e by auto
  ultimately show ?thesis by blast
qed

lemma number_toString_not_option:
  "number_toString i \<noteq> ''--port''" "number_toString i \<noteq> ''--auth''"
  "number_toString i \<noteq> ''--noauth''"
proof -
  obtain d ds where e: "show_nat (nat (- i)) = d # ds" and d: "d \<in> set ''0123456789''"
    using show_nat_hd by blast
  obtain d' ds' where e': "show_nat (nat i) = d' # ds'" and d': "d' \<in> set ''0123456789''"
    using show_nat_hd by blast
  show "number_toString i \<noteq> ''--port''" "number_toString i \<noteq> ''--auth''"
    "number_toString i \<noteq> ''--noauth''"
    using e d e' d' by (auto simp: number_toString_def)
qed

lemma prepareCommandArgs_unfold:
  "prepareCommandArgs opts =
     [''--bind_ip'', (if truthy_string (ip opts) then the (ip opts) else ''127.0.0.1'')] @
     (if truthy_number (port opts) then [''--port'', number_toString (the (port opts))] else []) @
     (if truthy_string (storageEngine opts) then [''--storageEngine'', the (storageEngine opts)] else []) @
     (if truthy_string (dbPath opts) then [''--dbpath'', the (dbPath opts)] else []) @
     [if truthy_bool (auth opts) then ''--auth'' else ''--noauth''] @
     (if truthy_string (replSet opts) then [''--replSet'', the (replSet opts)] else []) @
     (case args opts of None \<Rightarrow> [] | Some a \<Rightarrow> a)"
  by (simp add: prepareCommandArgs_def Let_def)

lemma truthy_string_caller:
  "truthy_string (ip opts) \<Longrightarrow> the (ip opts) \<in> set (caller_strings opts)"
  "truthy_string (storageEngine opts) \<Longrightarrow> the (storageEngine opts) \<in> set (caller_strings opts)"
  "truthy_string (dbPath opts) \<Longrightarrow> the (dbPath opts) \<in> set (caller_strings opts)"
  "truthy_string (replSet opts) \<Longrightarrow> the (replSet opts) \<in> set (caller_strings opts)"
  by (auto simp: truthy_string_def caller_strings_def split: option.splits)

lemma args_caller:
  "t \<in> set (case args opts of None \<Rightarrow> [] | Some a \<Rightarrow> a) \<Longrightarrow> t \<in> set (caller_strings opts)"
  by (auto simp: caller_strings_def)

lemma no_port_token:
  assumes "\<not> truthy_number (port opts)" and "''--port'' \<notin> set (caller_strings opts)"
  shows "''--port'' \<notin> set (prepareCommandArgs opts)"
  using assms truthy_string_caller [of opts] args_caller [of "''--port''" opts]
  by (auto simp: prepareCommandArgs_unfold)

lemma auth_tokens:
  assumes "''--auth'' \<notin> set (caller_strings opts)" and "''--noauth'' \<notin> set (caller_strings opts)"
  shows "filter (\<lambda>t. t = ''--auth'' \<or> t = ''--noauth'') (prepareCommandArgs opts) =
           [if truthy_bool (auth opts) then ''--auth'' else ''--noauth'']"
proof -
  have a: "filter (\<lambda>t. t = ''--auth'' \<or> t = ''--noauth'') (case args opts of None \<Rightarrow> [] | Some a \<Rightarrow> a) = []"
    using assms args_caller [of _ opts] by (auto simp: filter_empty_conv)
  show ?thesis
    using assms truthy_string_caller [of opts] number_toString_not_option [of "the (port opts)"]
    by (auto simp: prepareCommandArgs_unfold a)
qed

text \<open>An example configuration: an empty bind address and the port \<open>0\<close>.\<close>

definition opts_falsy :: MongoInstanceOpts where
  "opts_falsy = \<lparr>port = Some 0, ip = Some [], storageEngine = None, dbPath = None,
     replSet = None, args = None, auth = None\<rparr>"

subsection \<open>Claims about the command builder\<close>

text \<open>
  C7, as amended. \<^const>\<open>prepareCommandArgs\<close> is a total function of the options alone.
  When the port is unset (or \<open>0\<close>) and no string supplied by the caller spells
  \<^verbatim>\<open>--port\<close>, the result holds no \<^verbatim>\<open>--port\<close> token; when no string supplied by the
  caller spells \<^verbatim>\<open>--auth\<close> or \<^verbatim>\<open>--noauth\<close>, the result holds exactly one of the two
  tokens, \<^verbatim>\<open>--auth\<close> when the flag is true and \<^verbatim>\<open>--noauth\<close> otherwise.
\<close>

theorem prepareCommandArgs_port_auth_tokens:
  "((port opts = None \<or> port opts = Some 0) \<and> ''--port'' \<notin> set (caller_strings opts)
      \<longrightarrow> ''--port'' \<notin> set (prepareCommandArgs opts)) \<and>
   (''--auth'' \<notin> set (caller_strings opts) \<and> ''--noauth'' \<notin> set (caller_strings opts)
      \<longrightarrow> filter (\<lambda>t. t = ''--auth'' \<or> t = ''--noauth'') (prepareCommandArgs opts) =
            [if auth opts = Some True then ''--auth'' else ''--noauth''])"
proof -
  have t: "truthy_bool (auth opts) = (auth opts = Some True)"
    by (simp add: truthy_bool_def split: option.splits)
  have "port opts = None \<or> port opts = Some 0 \<Longrightarrow> \<not> truthy_number (port opts)"
    by (auto simp: truthy_number_def)
  then show ?thesis
    using no_port_token [of opts] auth_tokens [of opts] by (simp add: t)
qed

theorem prepareCommandArgs_port_auth_tokens_witness:
  "''--port'' \<notin> set (prepareCommandArgs
      \<lparr>port = None, ip = None, storageEngine = Some ''wiredTiger'', dbPath = Some ''/tmp/db'',
       replSet = Some ''rs0'', args = Some [''--quiet''], auth = Some True\<rparr>) \<and>
   filter (\<lambda>t. t = ''--auth'' \<or> t = ''--noauth'') (prepareCommandArgs
      \<lparr>port = None, ip = None, storageEngine = Some ''wiredTiger'', dbPath = Some ''/tmp/db'',
       replSet = Some ''rs0'', args = Some [''--quiet''], auth = Some True\<rparr>) = [''--auth'']"
  using prepareCommandArgs_port_auth_tokens [of
      "\<lparr>port = None, ip = None, storageEngine = Some ''wiredTiger'', dbPath = Some ''/tmp/db'',
       replSet = Some ''rs0'', args = Some [''--quiet''], auth = Some True\<rparr>"]
  by (simp add: caller_strings_def)

text \<open>
  C7 as stated fails: the extra arguments are appended verbatim, so a configuration with
  the port unset whose extra arguments are \<^verbatim>\<open>['--port', '27017']\<close> yields a
  \<^verbatim>\<open>--port\<close> token, and one with the flag true whose extra arguments are
  \<^verbatim>\<open>['--noauth']\<close> yields both authentication tokens.
\<close>

theorem prepareCommandArgs_port_auth_tokens_counterexample:
  "prepareCommandArgs
      \<lparr>port = None, ip = None, storageEngine = None, dbPath = None, replSet = None,
       args = Some [''--port'', ''27017''], auth = None\<rparr> =
     [''--bind_ip'', ''127.0.0.1'', ''--noauth'', ''--port'', ''27017''] \<and>
   prepareCommandArgs
      \<lparr>port = None, ip = None, storageEngine = None, dbPath = None, replSet = None,
       args = Some [''--noauth''], auth = Some True\<rparr> =
     [''--bind_ip'', ''127.0.0.1'', ''--auth'', ''--noauth'']"
  by (simp add: prepareCommandArgs_def truthy_string_def truthy_number_def truthy_bool_def)

text \<open>
  C9, as amended. A bind address that is absent or the empty string gives the same arguments as the
  configured address \<^verbatim>\<open>127.0.0.1\<close>, which then follows \<^verbatim>\<open>--bind_ip\<close>; a port of
  \<open>0\<close> gives the same arguments as no port at all, and, unless a string supplied by
  the caller spells it, no \<^verbatim>\<open>--port\<close> token.
\<close>

theorem prepareCommandArgs_falsy_defaults:
  "((ip opts = None \<or> ip opts = Some [])
      \<longrightarrow> prepareCommandArgs opts = prepareCommandArgs (opts\<lparr>ip := Some ''127.0.0.1''\<rparr>) \<and>
          take 2 (prepareCommandArgs opts) = [''--bind_ip'', ''127.0.0.1'']) \<and>
   (port opts = Some 0
      \<longrightarrow> prepareCommandArgs opts = prepareCommandArgs (opts\<lparr>port := None\<rparr>) \<and>
          (''--port'' \<notin> set (caller_strings opts) \<longrightarrow> ''--port'' \<notin> set (prepareCommandArgs opts)))"
proof -
  have a: "ip opts = None \<or> ip opts = Some [] \<Longrightarrow>
      prepareCommandArgs opts = prepareCommandArgs (opts\<lparr>ip := Some ''127.0.0.1''\<rparr>)"
    by (auto simp: prepareCommandArgs_unfold truthy_string_def)
  have b: "ip opts = None \<or> ip opts = Some [] \<Longrightarrow>
      take 2 (prepareCommandArgs opts) = [''--bind_ip'', ''127.0.0.1'']"
    by (auto simp: prepareCommandArgs_unfold truthy_string_def)
  have c: "port opts = Some 0 \<Longrightarrow> prepareCommandArgs opts = prepareCommandArgs (opts\<lparr>port := None\<rparr>)"
    by (simp add: prepareCommandArgs_unfold truthy_number_def)
  have d: "port opts = Some 0 \<Longrightarrow> ''--port'' \<notin> set (caller_strings opts) \<Longrightarrow>
      ''--port'' \<notin> set (prepareCommandArgs opts)"
    using no_port_token [of opts] by (simp add: truthy_number_def)
  from a b c d show ?thesis by blast
qed

theorem prepareCommandArgs_falsy_defaults_witness:
  "prepareCommandArgs opts_falsy = prepareCommandArgs (opts_falsy\<lparr>ip := Some ''127.0.0.1''\<rparr>) \<and>
   take 2 (prepareCommandArgs opts_falsy) = [''--bind_ip'', ''127.0.0.1''] \<and>
   prepareCommandArgs opts_falsy = prepareCommandArgs (opts_falsy\<lparr>port := None\<rparr>) \<and>
   ''--port'' \<notin> set (prepareCommandArgs opts_falsy)"
proof -
  have h1: "ip opts_falsy = None \<or> ip opts_falsy = Some []"
    by (simp add: opts_falsy_def)
  have h2: "port opts_falsy = Some 0"
    by (simp add: opts_falsy_def)
  have h3: "''--port'' \<notin> set (caller_strings opts_falsy)"
    by (simp add: opts_falsy_def caller_strings_def)
  show ?thesis
    using prepareCommandArgs_falsy_defaults [of opts_falsy] h1 h2 h3 by blast
qed

text \<open>
  C9 as stated fails in its second half: a port of \<open>0\<close> is treated as unset, but the
  result can still hold a \<^verbatim>\<open>--port\<close> token, because the extra arguments are appended
  verbatim. With port \<open>0\<close> and extra arguments \<^verbatim>\<open>['--port', '27017']\<close> it does.
\<close>

theorem prepareCommandArgs_port_zero_token:
  "prepareCommandArgs
      \<lparr>port = Some 0, ip = Some [], storageEngine = None, dbPath = None, replSet = None,
       args = Some [''--port'', ''27017''], auth = None\<rparr> =
     [''--bind_ip'', ''127.0.0.1'', ''--noauth'', ''--port'', ''27017''] \<and>
   ''--port'' \<in> set (prepareCommandArgs
      \<lparr>port = Some 0, ip = Some [], storageEngine = None, dbPath = None, replSet = None,
       args = Some [''--port'', ''27017''], auth = None\<rparr>)"
  by (simp add: prepareCommandArgs_def truthy_string_def truthy_number_def truthy_bool_def)

section \<open>Regular expressions of the output classifier\<close>

text \<open>
  Every pattern of \<^verbatim>\<open>stdoutHandler\<close> is a sequence of single characters, character
  classes and \<^verbatim>\<open>*\<close>, \<^verbatim>\<open>*?\<close>, \<^verbatim>\<open>+\<close> over them, with the flag \<^verbatim>\<open>i\<close>. A line is a
  \<^typ>\<open>string\<close> of 8-bit code units, so the only line terminators \<^verbatim>\<open>.\<close> excludes are
  LF and CR.
\<close>

datatype atom = Ch char | Digit | WordChar | Dot

text \<open>Canonicalize of the flag \<^verbatim>\<open>i\<close> (no \<^verbatim>\<open>u\<close>): the ASCII letters go to upper case; a
  code unit above 127 is never mapped onto an ASCII one.\<close>

definition canonicalize :: "char \<Rightarrow> char" where
  "canonicalize c =
     (case map_of (zip ''abcdefghijklmnopqrstuvwxyz'' ''ABCDEFGHIJKLMNOPQRSTUVWXYZ'') c of
        Some u \<Rightarrow> u | None \<Rightarrow> c)"

fun atom_match :: "atom \<Rightarrow> char \<Rightarrow> bool" where
  "atom_match (Ch p) c = (canonicalize c = canonicalize p)"
| "atom_match Digit c = (c \<in> set ''0123456789'')"
| "atom_match WordChar c =
     (c \<in> set ''abcdefghijklmnopqrstuvwxyzABCDEFGHIJKLMNOPQRSTUVWXYZ0123456789_'')"
| "atom_match Dot c = (c \<notin> set [CHR 0x0A, CHR 0x0D])"

text \<open>A character class \<^verbatim>\<open>[...]\<close> is the list of its atoms; a single atom is a class of one.\<close>

definition class_match :: "atom list \<Rightarrow> char \<Rightarrow> bool" where
  "class_match cs c = list_ex (\<lambda>a. atom_match a c) cs"

datatype item = One "atom list" | Star "atom list" | LazyStar "atom list"

text \<open>
  The backtracking matcher, anchored at the start of its input: the remainders of the
  input after each way of matching, in the order backtracking tries them (a greedy star
  takes the longer match first, a lazy one the shorter).
\<close>

fun matches :: "item list \<Rightarrow> string \<Rightarrow> string list" where
  "matches [] s = [s]"
| "matches (One cs # r) [] = []"
| "matches (One cs # r) (c # s) = (if class_match cs c then matches r s else [])"
| "matches (Star cs # r) [] = matches r []"
| "matches (Star cs # r) (c # s) =
     (if class_match cs c then matches (Star cs # r) s else []) @ matches r (c # s)"
| "matches (LazyStar cs # r) [] = matches r []"
| "matches (LazyStar cs # r) (c # s) =
     matches r (c # s) @ (if class_match cs c then matches (LazyStar cs # r) s else [])"

text \<open>\<^verbatim>\<open>regex.test(line)\<close>: a match starting at some position of the line.\<close>

fun re_test :: "item list \<Rightarrow> string \<Rightarrow> bool" where
  "re_test r [] = (matches r [] \<noteq> [])"
| "re_test r (c # s) = (matches r (c # s) \<noteq> [] \<or> re_test r s)"

text \<open>
  \<^verbatim>\<open>regex.exec(line)?.[1]\<close> for a pattern \<open>pre(grp)\<close> whose one capture group ends it: the
  text the group takes in the first match backtracking finds at the leftmost position
  that has one.
\<close>

definition captures :: "item list \<Rightarrow> item list \<Rightarrow> string \<Rightarrow> string list" where
  "captures pre grp s =
     concat (map (\<lambda>r. map (\<lambda>r2. take (length r - length r2) r) (matches grp r)) (matches pre s))"

fun re_exec_group :: "item list \<Rightarrow> item list \<Rightarrow> string \<Rightarrow> string option" where
  "re_exec_group pre grp [] = (case captures pre grp [] of [] \<Rightarrow> None | g # _ \<Rightarrow> Some g)"
| "re_exec_group pre grp (c # s) =
     (case captures pre grp (c # s) of [] \<Rightarrow> re_exec_group pre grp s | g # _ \<Rightarrow> Some g)"

definition lit :: "string \<Rightarrow> item list" where
  "lit s = map (\<lambda>c. One [Ch c]) s"

text \<open>\<^verbatim>\<open>x+\<close> is \<^verbatim>\<open>xx*\<close>.\<close>

definition plus :: "atom list \<Rightarrow> item list" where
  "plus cs = [One cs, Star cs]"

text \<open>The patterns, in the order \<^verbatim>\<open>stdoutHandler\<close> tests them.\<close>

definition re_waiting :: "item list" where
  "re_waiting = lit ''waiting for connections''"

definition re_addr_in_use :: "item list" where
  "re_addr_in_use = lit ''addr already in use''"

definition re_already_running :: "item list" where
  "re_already_running = lit ''mongod instance already running''"

definition re_permission_denied :: "item list" where
  "re_permission_denied = lit ''permission denied''"

definition re_data_directory :: "item list" where
  "re_data_directory = lit ''Data directory '' @ [LazyStar [Dot]] @ lit '' not found''"

definition re_curl3 :: "item list" where
  "re_curl3 = lit ''CURL_OPENSSL_3'' @ [Star [Dot]] @ lit ''not found''"

definition re_curl4 :: "item list" where
  "re_curl4 = lit ''CURL_OPENSSL_4'' @ [Star [Dot]] @ lit ''not found''"

definition re_shutting_down :: "item list" where
  "re_shutting_down = lit ''shutting down with code''"

definition re_aborting :: "item list" where
  "re_aborting = lit ''***aborting after''"

definition re_primary :: "item list" where
  "re_primary = lit ''transition to primary complete; database writes are now permitted''"

definition re_member_pre :: "item list" where
  "re_member_pre = lit ''member '' @ plus [Digit, Ch CHR ''.'', Ch CHR '':''] @ lit '' is now in state ''"

definition re_member_grp :: "item list" where
  "re_member_grp = plus [WordChar]"

definition re_member :: "item list" where
  "re_member = re_member_pre @ re_member_grp"

section \<open>The instance handle\<close>

datatype MongoInstanceEvents =
  Ev_instanceState | Ev_instancePrimary | Ev_instanceReady | Ev_instanceSTDOUT
  | Ev_instanceSTDERR | Ev_instanceClosed | Ev_instanceError | Ev_killerLaunched
  | Ev_instanceLaunched | Ev_instanceStarted

datatype kill_signal = SIGINT | SIGKILL | SIGTERM

text \<open>A child process as the handle sees it: its pid, absent when the spawn failed.\<close>

record ChildProcess =
  pid :: "nat option"

text \<open>
  What the operating system answers while one call of \<^verbatim>\<open>kill_internal\<close> waits for a
  process: after how many milliseconds the \<^verbatim>\<open>exit\<close> event follows the signal, with the
  event's exit code and signal name, or \<^const>\<open>None\<close> when no \<^verbatim>\<open>exit\<close> event follows it,
  because the process ignores the signal or because it had exited before the call (its
  one \<^verbatim>\<open>exit\<close> event is then past, and the signal reaches nothing). The answers are an
  argument of each call: nothing is assumed of them from what the handle did before.
\<close>

type_synonym exit_event = "nat \<times> int option \<times> string option"

record exit_answers =
  exit_after_SIGINT :: "exit_event option"
  exit_after_SIGKILL :: "exit_event option"

datatype arg = Str string | Num "int option"

text \<open>What a method does to the world outside the handle, in order.\<close>

datatype effect =
  Emit MongoInstanceEvents "arg list"
  | DebugLog string
  | ConsoleWarn string
  | Spawn string "string list"
  | ProcessKill ChildProcess kill_signal
  | LaunchResolve
  | LaunchReject string
  | PrimaryResolve nat bool

datatype 'e promise = Pending | Fulfilled | Rejected 'e

text \<open>The two callback fields: the no-op of the field initialiser, or the closure
  \<^verbatim>\<open>run()\<close> installs.\<close>

datatype ready_callback = ReadyNoop | ReadyRun

datatype failed_callback = FailedNoop | FailedRun

record SpawnOptions =
  stdio :: "string option"

text \<open>
  The fields of the class, then what the class refers to without holding it in a field:
  the promise \<^verbatim>\<open>launch\<close> of \<^verbatim>\<open>run()\<close> (absent before \<^verbatim>\<open>run()\<close>), the promises
  \<^verbatim>\<open>waitPrimaryReady()\<close> has returned (a promise is its index; \<^const>\<open>None\<close> is pending),
  whether the debug namespace is enabled, and the effects so far. An entry of
  \<open>waitForPrimaryResolveFns\<close> is the index of the promise it resolves.
\<close>

record MongoInstance =
  instanceOpts :: MongoInstanceOpts
  spawnOpts :: SpawnOptions
  childProcess :: "ChildProcess option"
  killerProcess :: "ChildProcess option"
  waitForPrimaryResolveFns :: "nat list"
  isInstancePrimary :: bool
  isInstanceReady :: bool
  instanceReady :: ready_callback
  instanceFailed :: failed_callback
  launch :: "string promise option"
  primaryPromises :: "bool option list"
  debugEnabled :: bool
  trace :: "effect list"

definition constructor :: "MongoInstanceOpts \<Rightarrow> SpawnOptions \<Rightarrow> bool \<Rightarrow> MongoInstance" where
  "constructor iopts sopts dbg =
     \<lparr>instanceOpts = iopts, spawnOpts = sopts, childProcess = None, killerProcess = None,
      waitForPrimaryResolveFns = [], isInstancePrimary = False, isInstanceReady = False,
      instanceReady = ReadyNoop, instanceFailed = FailedNoop, launch = None,
      primaryPromises = [], debugEnabled = dbg, trace = []\<rparr>"

definition effect :: "MongoInstance \<Rightarrow> effect \<Rightarrow> MongoInstance" where
  "effect s e = s\<lparr>trace := trace s @ [e]\<rparr>"

text \<open>\<^verbatim>\<open>debug(msg)\<close>: the line is logged when the debug namespace is enabled.\<close>

definition debug_effects :: "MongoInstance \<Rightarrow> string \<Rightarrow> effect list" where
  "debug_effects s msg =
     (if debugEnabled s
      then [DebugLog (''Mongo['' @
             (case port (instanceOpts s) of None \<Rightarrow> ''unkown'' | Some n \<Rightarrow> number_toString n) @
             '']: '' @ msg)]
      else [])"

definition debug :: "MongoInstance \<Rightarrow> string \<Rightarrow> MongoInstance" where
  "debug s msg = s\<lparr>trace := trace s @ debug_effects s msg\<rparr>"

definition emit :: "MongoInstance \<Rightarrow> MongoInstanceEvents \<Rightarrow> arg list \<Rightarrow> MongoInstance" where
  "emit s ev as = effect s (Emit ev as)"

text \<open>\<^verbatim>\<open>resolve()\<close> and \<^verbatim>\<open>reject(err)\<close> of the promise \<^verbatim>\<open>launch\<close>: only a pending promise
  settles.\<close>

definition launch_resolve :: "MongoInstance \<Rightarrow> MongoInstance" where
  "launch_resolve s =
     (effect s LaunchResolve)\<lparr>launch := (if launch s = Some Pending then Some Fulfilled else launch s)\<rparr>"

definition launch_reject :: "MongoInstance \<Rightarrow> string \<Rightarrow> MongoInstance" where
  "launch_reject s err =
     (effect s (LaunchReject err))\<lparr>launch := (if launch s = Some Pending then Some (Rejected err) else launch s)\<rparr>"

text \<open>\<^verbatim>\<open>process.kill(signal)\<close>.\<close>

definition process_kill :: "MongoInstance \<Rightarrow> ChildProcess \<Rightarrow> kill_signal \<Rightarrow> MongoInstance" where
  "process_kill s p sig = effect s (ProcessKill p sig)"

text \<open>Calling the field \<^verbatim>\<open>this.instanceReady()\<close>.\<close>

definition instanceReady_call :: "MongoInstance \<Rightarrow> MongoInstance" where
  "instanceReady_call s =
     (case instanceReady s of
        ReadyNoop \<Rightarrow> s
      | ReadyRun \<Rightarrow>
          launch_resolve (debug (s\<lparr>isInstanceReady := True\<rparr>) ''MongodbInstance: Instance is ready!''))"

text \<open>Calling the field \<^verbatim>\<open>this.instanceFailed(err)\<close>; \<^verbatim>\<open>killerProcess.kill()\<close> sends the
  default signal, SIGTERM.\<close>

definition instanceFailed_call :: "MongoInstance \<Rightarrow> string \<Rightarrow> MongoInstance" where
  "instanceFailed_call s err =
     (case instanceFailed s of
        FailedNoop \<Rightarrow> s
      | FailedRun \<Rightarrow>
          (let s1 = debug s (''MongodbInstance: Instance has failed: '' @ err);
               s2 = (case killerProcess s1 of None \<Rightarrow> s1 | Some k \<Rightarrow> process_kill s1 k SIGTERM)
           in launch_reject s2 err))"

subsection \<open>run\<close>

text \<open>The executor of the promise \<^verbatim>\<open>launch\<close>: both callbacks are installed.\<close>

definition run_executor :: "MongoInstance \<Rightarrow> MongoInstance" where
  "run_executor s = s\<lparr>instanceReady := ReadyRun, instanceFailed := FailedRun, launch := Some Pending\<rparr>"

text \<open>\<^verbatim>\<open>_launchMongod(mongoBin)\<close>; the process \<^verbatim>\<open>spawnChild\<close> returns is the argument
  \<open>spawned\<close>.\<close>

definition launchMongod :: "MongoInstance \<Rightarrow> string \<Rightarrow> ChildProcess \<Rightarrow> MongoInstance \<times> (string + ChildProcess)" where
  "launchMongod s mongoBin spawned =
     (let s1 = (if \<not> truthy_string (stdio (spawnOpts s))
                then s\<lparr>spawnOpts := (spawnOpts s)\<lparr>stdio := Some ''pipe''\<rparr>\<rparr> else s);
          s2 = effect s1 (Spawn mongoBin (prepareCommandArgs (instanceOpts s1)))
      in if pid spawned = None then (s2, Inl ''Spawned Mongo Instance PID is undefined'')
         else (emit s2 Ev_instanceLaunched [], Inr spawned))"

text \<open>\<^verbatim>\<open>_launchKiller(parentPid, childPid)\<close>; \<open>node\<close> is
  \<^verbatim>\<open>process.env['NODE'] ?? process.argv[0]\<close> and \<open>script\<close> the resolved path of
  \<^verbatim>\<open>mongo_killer.js\<close>.\<close>

definition launchKiller :: "MongoInstance \<Rightarrow> string \<Rightarrow> string \<Rightarrow> nat \<Rightarrow> nat \<Rightarrow> ChildProcess \<Rightarrow> MongoInstance \<times> ChildProcess" where
  "launchKiller s node script parentPid childPid spawned =
     (let s1 = debug s (''Called MongoInstance._launchKiller(parent: '' @ number_toString (int parentPid) @
                        '', child: '' @ number_toString (int childPid) @ ''):'');
          s2 = effect s1 (Spawn node [script, number_toString (int parentPid), number_toString (int childPid)])
      in (emit s2 Ev_killerLaunched [], spawned))"

text \<open>
  \<^verbatim>\<open>run()\<close> up to \<^verbatim>\<open>await launch\<close>: \<open>mongoBin\<close> is what \<^verbatim>\<open>MongoBinary.getPath\<close> settles
  with, \<open>child\<close> and \<open>killer\<close> the processes the two spawns return. \<^const>\<open>Inl\<close> is the error
  \<^verbatim>\<open>run()\<close> rejects with before it awaits.
\<close>

definition run :: "MongoInstance \<Rightarrow> string + string \<Rightarrow> string \<Rightarrow> string \<Rightarrow> nat \<Rightarrow> ChildProcess \<Rightarrow> ChildProcess \<Rightarrow> MongoInstance \<times> (string + unit)" where
  "run s mongoBin node script parentPid child killer =
     (let s1 = run_executor s in
      case mongoBin of
        Inl err \<Rightarrow> (s1, Inl err)
      | Inr bin \<Rightarrow>
          (case launchMongod s1 bin child of
             (s2, Inl err) \<Rightarrow> (s2, Inl err)
           | (s2, Inr c) \<Rightarrow>
               (let s3 = s2\<lparr>childProcess := Some c\<rparr>;
                    (s4, k) = launchKiller s3 node script parentPid (the (pid c)) killer
                in (s4\<lparr>killerProcess := Some k\<rparr>, Inr ()))))"

text \<open>\<^verbatim>\<open>run()\<close> after \<^verbatim>\<open>await launch\<close>, once the promise has settled: \<^const>\<open>None\<close> while it
  is pending.\<close>

definition run_resume :: "MongoInstance \<Rightarrow> (MongoInstance \<times> (string + unit)) option" where
  "run_resume s =
     (case launch s of
        Some Fulfilled \<Rightarrow> Some (emit s Ev_instanceStarted [], Inr ())
      | Some (Rejected err) \<Rightarrow> Some (s, Inl err)
      | _ \<Rightarrow> None)"

subsection \<open>kill\<close>

definition timeoutTime :: nat where
  "timeoutTime = 1000 * 10"

text \<open>\<^verbatim>\<open>${code}\<close> and \<^verbatim>\<open>${signal}\<close> in a template literal.\<close>

definition show_code :: "int option \<Rightarrow> string" where
  "show_code c = (case c of None \<Rightarrow> ''null'' | Some n \<Rightarrow> number_toString n)"

definition show_signal :: "string option \<Rightarrow> string" where
  "show_signal g = (case g of None \<Rightarrow> ''null'' | Some n \<Rightarrow> n)"

text \<open>The listener \<^verbatim>\<open>process.once('exit', ...)\<close> of \<^verbatim>\<open>kill_internal\<close>.\<close>

definition exit_listener :: "MongoInstance \<Rightarrow> string \<Rightarrow> int option \<Rightarrow> string option \<Rightarrow> MongoInstance" where
  "exit_listener s name c g =
     debug s (''- '' @ name @ '': got exit signal, Code: '' @ show_code c @ '', Signal: '' @ show_signal g)"

text \<open>
  The \<^verbatim>\<open>exit\<close> event while the second timer runs, in milliseconds after SIGKILL was
  sent: the earlier of a late answer to SIGINT and the answer to SIGKILL.
\<close>

definition exit_after_escalation :: "exit_answers \<Rightarrow> exit_event option" where
  "exit_after_escalation p =
     (let late = (case exit_after_SIGINT p of
                    None \<Rightarrow> None
                  | Some (d, ev) \<Rightarrow> if timeoutTime \<le> d then Some (d - timeoutTime, ev) else None)
      in case (late, exit_after_SIGKILL p) of
           (None, k) \<Rightarrow> k
         | (Some l, None) \<Rightarrow> Some l
         | (Some (dl, el), Some (dk, ek)) \<Rightarrow> if dl \<le> dk then Some (dl, el) else Some (dk, ek))"

text \<open>The first timer's callback and what follows it; \<^const>\<open>Inl\<close> is the message of the
  \<^verbatim>\<open>Error\<close> the promise rejects with.\<close>

definition kill_escalate :: "MongoInstance \<Rightarrow> ChildProcess \<Rightarrow> string \<Rightarrow> exit_answers \<Rightarrow> MongoInstance \<times> (string + unit)" where
  "kill_escalate s process name answers =
     (let s1 = debug s ''kill_internal timeout triggered, trying SIGKILL'';
          s2 = (if \<not> debugEnabled s1
                then effect s1 (ConsoleWarn
                  (''An Process didnt exit with signal \"SIGINT\" within 10 seconds, using \"SIGKILL\"!'' @
                   [CHR 0x0A] @ ''Enable debug logs for more information''))
                else s1);
          s3 = process_kill s2 process SIGKILL
      in case exit_after_escalation answers of
           Some (d, c, g) \<Rightarrow>
             if d < timeoutTime then (exit_listener s3 name c g, Inr ())
             else (debug s3 ''kill_internal timeout triggered again, rejecting'',
                   Inl ''Process didnt exit, enable debug for more information.'')
         | None \<Rightarrow>
             (debug s3 ''kill_internal timeout triggered again, rejecting'',
              Inl ''Process didnt exit, enable debug for more information.''))"

text \<open>
  \<^verbatim>\<open>kill_internal\<close>: an \<^verbatim>\<open>exit\<close> event earlier than a timer clears it; at equal times
  the timer, set first, runs first.
\<close>

definition kill_internal :: "MongoInstance \<Rightarrow> ChildProcess \<Rightarrow> string \<Rightarrow> exit_answers \<Rightarrow> MongoInstance \<times> (string + unit)" where
  "kill_internal s process name answers =
     (let s1 = debug s (''- '' @ name @ '': send \"SIGINT\"'');
          s2 = process_kill s1 process SIGINT
      in case exit_after_SIGINT answers of
           Some (d, c, g) \<Rightarrow>
             if d < timeoutTime then (exit_listener s2 name c g, Inr ())
             else kill_escalate s2 process name answers
         | None \<Rightarrow> kill_escalate s2 process name answers)"

text \<open>The second half of \<^verbatim>\<open>kill()\<close>, from the test of \<^verbatim>\<open>this.killerProcess\<close> on.\<close>

definition kill_killerProcess :: "MongoInstance \<Rightarrow> exit_answers \<Rightarrow> MongoInstance \<times> (string + unit)" where
  "kill_killerProcess s killer_answers =
     (case killerProcess s of
        Some k \<Rightarrow>
          (case kill_internal s k ''killerProcess'' killer_answers of
             (s1, Inl err) \<Rightarrow> (s1, Inl err)
           | (s1, Inr _) \<Rightarrow> (debug s1 ''Instance Finished Shutdown'', Inr ()))
      | None \<Rightarrow>
          (debug (debug s ''- killerProcess: nothing to shutdown, skipping.'') ''Instance Finished Shutdown'',
           Inr ()))"

text \<open>
  \<^verbatim>\<open>kill()\<close>, with the answers of the operating system for the server process and for
  the killer process during this call; \<^const>\<open>Inl\<close> is the message of the error it rejects
  with.
\<close>

definition kill :: "MongoInstance \<Rightarrow> exit_answers \<Rightarrow> exit_answers \<Rightarrow> MongoInstance \<times> (string + unit)" where
  "kill s child_answers killer_answers =
     (let s0 = debug s ''Called MongoInstance.kill():'' in
      case childProcess s0 of
        Some c \<Rightarrow>
          (case kill_internal s0 c ''childProcess'' child_answers of
             (s1, Inl err) \<Rightarrow> (s1, Inl err)
           | (s1, Inr _) \<Rightarrow> kill_killerProcess s1 killer_answers)
      | None \<Rightarrow>
          kill_killerProcess (debug s0 ''- childProcess: nothing to shutdown, skipping.'') killer_answers)"

subsection \<open>getPid and waitPrimaryReady\<close>

definition getPid :: "MongoInstance \<Rightarrow> nat option" where
  "getPid s = (case childProcess s of None \<Rightarrow> None | Some c \<Rightarrow> pid c)"

datatype primary_wait = Immediately bool | Awaiting nat

text \<open>\<^verbatim>\<open>waitPrimaryReady()\<close>: \<^verbatim>\<open>true\<close> at once, or a new pending promise whose
  \<^verbatim>\<open>resolve\<close> is pushed onto the list.\<close>

definition waitPrimaryReady :: "MongoInstance \<Rightarrow> MongoInstance \<times> primary_wait" where
  "waitPrimaryReady s =
     (if isInstancePrimary s then (s, Immediately True)
      else (let i = length (primaryPromises s)
            in (s\<lparr>primaryPromises := primaryPromises s @ [None],
                   waitForPrimaryResolveFns := waitForPrimaryResolveFns s @ [i]\<rparr>,
                Awaiting i)))"

text \<open>\<^verbatim>\<open>resolveFn(value)\<close> of the promise \<open>i\<close>: only a pending promise settles.\<close>

definition resolveFn :: "MongoInstance \<Rightarrow> nat \<Rightarrow> bool \<Rightarrow> MongoInstance" where
  "resolveFn s i v =
     (effect s (PrimaryResolve i v))\<lparr>primaryPromises :=
        (if i < length (primaryPromises s) \<and> primaryPromises s ! i = None
         then (primaryPromises s)[i := Some v] else primaryPromises s)\<rparr>"

subsection \<open>The stream and process handlers\<close>

definition errorHandler :: "MongoInstance \<Rightarrow> string \<Rightarrow> MongoInstance" where
  "errorHandler s err = instanceFailed_call (emit s Ev_instanceError [Str err]) err"

definition closeHandler :: "MongoInstance \<Rightarrow> int option \<Rightarrow> MongoInstance" where
  "closeHandler s c =
     (let s1 = (if c \<noteq> Some 0 then debug s ''Mongod instance closed with an non-0 code!'' else s);
          s2 = debug s1 (''CLOSE: '' @ show_code c)
      in emit s2 Ev_instanceClosed [Num c])"

definition stderrHandler :: "MongoInstance \<Rightarrow> string \<Rightarrow> MongoInstance" where
  "stderrHandler s message = emit (debug s (''STDERR: '' @ message)) Ev_instanceSTDERR [Str message]"

text \<open>The first two statements of \<^verbatim>\<open>stdoutHandler\<close>.\<close>

definition stdout_line :: "MongoInstance \<Rightarrow> string \<Rightarrow> MongoInstance" where
  "stdout_line s line = emit (debug s (''STDOUT: '' @ line)) Ev_instanceSTDOUT [Str line]"

text \<open>\<^verbatim>\<open>`Port ${this.instanceOpts.port} already in use`\<close>.\<close>

definition port_in_use_message :: "MongoInstanceOpts \<Rightarrow> string" where
  "port_in_use_message opts =
     ''Port '' @ (case port opts of None \<Rightarrow> ''undefined'' | Some n \<Rightarrow> number_toString n) @ '' already in use''"

definition libcurl3_message :: string where
  "libcurl3_message =
     ''libcurl3 is not available on your system. Mongod requires it and cannot be started without it.'' @
     [CHR 0x0A] @ ''You should manually install libcurl3 or try to use an newer version of MongoDB'' @ [CHR 0x0A]"

definition libcurl4_message :: string where
  "libcurl4_message =
     ''libcurl4 is not available on your system. Mongod requires it and cannot be started without it.'' @
     [CHR 0x0A] @ ''You need to manually install libcurl4'' @ [CHR 0x0A]"

definition stdoutHandler :: "MongoInstance \<Rightarrow> string \<Rightarrow> MongoInstance" where
  "stdoutHandler s0 line =
     (let s = stdout_line s0 line in
      if re_test re_waiting line then
        emit (instanceReady_call s) Ev_instanceReady []
      else if re_test re_addr_in_use line then
        instanceFailed_call s (port_in_use_message (instanceOpts s))
      else if re_test re_already_running line then
        instanceFailed_call s ''Mongod already running''
      else if re_test re_permission_denied line then
        instanceFailed_call s ''Mongod permission denied''
      else if re_test re_data_directory line then
        instanceFailed_call s ''Data directory not found''
      else if re_test re_curl3 line then
        instanceFailed_call s libcurl3_message
      else if re_test re_curl4 line then
        instanceFailed_call s libcurl4_message
      else if re_test re_shutting_down line then
        (if \<not> isInstanceReady s then instanceFailed_call s ''Mongod shutting down'' else s)
      else if re_test re_aborting line then
        instanceFailed_call s ''Mongod internal error''
      else if re_test re_primary line then
        (let s1 = s\<lparr>isInstancePrimary := True\<rparr>;
             s2 = debug s1 ''Calling all waitForPrimary resolve functions'';
             s3 = emit s2 Ev_instancePrimary []
         in fold (\<lambda>resolve t. resolveFn t resolve True) (waitForPrimaryResolveFns s3) s3)
      else if re_test re_member line then
        (let state = (case re_exec_group re_member_pre re_member_grp line of
                        Some g \<Rightarrow> g | None \<Rightarrow> ''UNKOWN'');
             s1 = emit s Ev_instanceState [Str state]
         in if state \<noteq> ''PRIMARY'' then s1\<lparr>isInstancePrimary := False\<rparr> else s1)
      else s)"

section \<open>What the matcher accepts\<close>

text \<open>
  The language of a pattern, stated without backtracking: the texts a match can take.
  The lemmas relate the executable matcher to it.
\<close>

fun accepts :: "item list \<Rightarrow> string \<Rightarrow> bool" where
  "accepts [] u = (u = [])"
| "accepts (One cs # r) u = (\<exists>c v. u = c # v \<and> class_match cs c \<and> accepts r v)"
| "accepts (Star cs # r) u = (\<exists>a b. u = a @ b \<and> (\<forall>c\<in>set a. class_match cs c) \<and> accepts r b)"
| "accepts (LazyStar cs # r) u = (\<exists>a b. u = a @ b \<and> (\<forall>c\<in>set a. class_match cs c) \<and> accepts r b)"

text \<open>Equality of two texts up to the letter case the flag \<^verbatim>\<open>i\<close> ignores.\<close>

definition ci_equal :: "string \<Rightarrow> string \<Rightarrow> bool" where
  "ci_equal a b = (map canonicalize a = map canonicalize b)"

lemma star_cons:
  "(\<exists>a b. c # s = a @ b @ r \<and> (\<forall>x\<in>set a. P x) \<and> Q b) \<longleftrightarrow>
   (P c \<and> (\<exists>a b. s = a @ b @ r \<and> (\<forall>x\<in>set a. P x) \<and> Q b)) \<or> (\<exists>b. c # s = b @ r \<and> Q b)"
  (is "?L \<longleftrightarrow> ?R")
proof
  assume ?L
  then obtain a b where e: "c # s = a @ b @ r" and a: "\<forall>x\<in>set a. P x" and b: "Q b" by blast
  show ?R
  proof (cases a)
    case Nil
    with e b show ?thesis by auto
  next
    case (Cons x a')
    with e a b show ?thesis by auto
  qed
next
  assume ?R
  then show ?L
  proof
    assume "P c \<and> (\<exists>a b. s = a @ b @ r \<and> (\<forall>x\<in>set a. P x) \<and> Q b)"
    then obtain a b where "P c" "s = a @ b @ r" "\<forall>x\<in>set a. P x" "Q b" by blast
    then have "c # s = (c # a) @ b @ r \<and> (\<forall>x\<in>set (c # a). P x) \<and> Q b" by simp
    then show ?L by blast
  next
    assume "\<exists>b. c # s = b @ r \<and> Q b"
    then obtain b where "c # s = [] @ b @ r \<and> (\<forall>x\<in>set []. P x) \<and> Q b" by auto
    then show ?L by blast
  qed
qed

lemma ex_append_split:
  "(\<exists>u. X = u @ r \<and> (\<exists>a b. u = a @ b \<and> P a b)) \<longleftrightarrow> (\<exists>a b. X = a @ b @ r \<and> P a b)"
proof
  assume "\<exists>u. X = u @ r \<and> (\<exists>a b. u = a @ b \<and> P a b)"
  then obtain u a b where "X = u @ r" "u = a @ b" "P a b" by blast
  then have "X = a @ b @ r \<and> P a b" by simp
  then show "\<exists>a b. X = a @ b @ r \<and> P a b" by blast
next
  assume "\<exists>a b. X = a @ b @ r \<and> P a b"
  then obtain a b where "X = a @ b @ r" "P a b" by blast
  then have "X = (a @ b) @ r \<and> (\<exists>a' b'. a @ b = a' @ b' \<and> P a' b')" by auto
  then show "\<exists>u. X = u @ r \<and> (\<exists>a b. u = a @ b \<and> P a b)" by blast
qed

lemma star_matches_step:
  assumes 1: "\<And>r. r \<in> set (matches p (c # s)) \<longleftrightarrow> (\<exists>u. c # s = u @ r \<and> accepts p u)"
    and 2: "class_match cs c \<Longrightarrow>
        (\<And>r. r \<in> set M \<longleftrightarrow>
           (\<exists>u. s = u @ r \<and> (\<exists>a b. u = a @ b \<and> (\<forall>c\<in>set a. class_match cs c) \<and> accepts p b)))"
  shows "r \<in> set (if class_match cs c then M else []) \<or> r \<in> set (matches p (c # s)) \<longleftrightarrow>
     (\<exists>u. c # s = u @ r \<and> (\<exists>a b. u = a @ b \<and> (\<forall>c\<in>set a. class_match cs c) \<and> accepts p b))"
proof -
  have "(\<exists>u. c # s = u @ r \<and> (\<exists>a b. u = a @ b \<and> (\<forall>c\<in>set a. class_match cs c) \<and> accepts p b)) \<longleftrightarrow>
        (\<exists>a b. c # s = a @ b @ r \<and> (\<forall>x\<in>set a. class_match cs x) \<and> accepts p b)"
    by (rule ex_append_split)
  also have "\<dots> \<longleftrightarrow> (class_match cs c \<and> (\<exists>a b. s = a @ b @ r \<and> (\<forall>x\<in>set a. class_match cs x) \<and> accepts p b))
      \<or> (\<exists>b. c # s = b @ r \<and> accepts p b)"
    by (rule star_cons)
  also have "(\<exists>a b. s = a @ b @ r \<and> (\<forall>x\<in>set a. class_match cs x) \<and> accepts p b) \<longleftrightarrow>
      (\<exists>u. s = u @ r \<and> (\<exists>a b. u = a @ b \<and> (\<forall>c\<in>set a. class_match cs c) \<and> accepts p b))"
    by (rule ex_append_split [symmetric])
  finally show ?thesis using 1 [of r] 2 [of r] by (cases "class_match cs c") auto
qed

lemma matches_iff: "r \<in> set (matches p s) \<longleftrightarrow> (\<exists>u. s = u @ r \<and> accepts p u)"
proof (induction p s arbitrary: r rule: matches.induct)
  case (1 s)
  then show ?case by auto
next
  case (2 cs p)
  then show ?case by auto
next
  case (3 cs p c s)
  then show ?case by (auto simp: Cons_eq_append_conv)
next
  case (4 cs p)
  then show ?case by auto
next
  case (5 cs p c s)
  show ?case
    using star_matches_step [of p c s cs "matches (Star cs # p) s" r] 5 by simp
next
  case (6 cs p)
  then show ?case by auto
next
  case (7 cs p c s)
  show ?case
    using star_matches_step [of p c s cs "matches (LazyStar cs # p) s" r] 7 by auto
qed

lemma matches_nonempty_iff: "matches p s \<noteq> [] \<longleftrightarrow> (\<exists>u r. s = u @ r \<and> accepts p u)"
proof -
  have "matches p s \<noteq> [] \<longleftrightarrow> (\<exists>r. r \<in> set (matches p s))"
    by (cases "matches p s") auto
  then show ?thesis by (auto simp: matches_iff)
qed

lemma re_test_iff: "re_test p s \<longleftrightarrow> (\<exists>a u r. s = a @ u @ r \<and> accepts p u)"
proof (induction s)
  case Nil
  then show ?case by (auto simp: matches_nonempty_iff)
next
  case (Cons c s)
  have "(\<exists>a u r. c # s = a @ u @ r \<and> accepts p u) \<longleftrightarrow>
        (\<exists>u r. c # s = u @ r \<and> accepts p u) \<or> (\<exists>a u r. s = a @ u @ r \<and> accepts p u)"
    (is "?L \<longleftrightarrow> ?A \<or> ?B")
  proof
    assume ?L
    then obtain a u r where e: "c # s = a @ u @ r" and u: "accepts p u" by blast
    show "?A \<or> ?B"
    proof (cases a)
      case Nil
      with e u show ?thesis by auto
    next
      case (Cons x a')
      with e u show ?thesis by auto
    qed
  next
    assume "?A \<or> ?B"
    then show ?L
    proof
      assume ?A
      then obtain u r where "c # s = [] @ u @ r \<and> accepts p u" by auto
      then show ?L by blast
    next
      assume ?B
      then obtain a u r where "c # s = (c # a) @ u @ r \<and> accepts p u" by auto
      then show ?L by blast
    qed
  qed
  then show ?case using Cons by (simp add: matches_nonempty_iff)
qed


lemma accepts_lit: "accepts (lit p) u \<longleftrightarrow> ci_equal u p"
  by (induction p arbitrary: u) (auto simp: lit_def ci_equal_def class_match_def)


subsection \<open>The capture group\<close>














section \<open>The branch a line takes\<close>

text \<open>
  The \<^verbatim>\<open>if\<close>/\<^verbatim>\<open>else if\<close> chain of \<^verbatim>\<open>stdoutHandler\<close> tests its patterns in a fixed
  order and acts on the first that matches. \<open>line_branch\<close> names that first match.
\<close>

datatype stdout_branch =
  B_waiting | B_addr_in_use | B_already_running | B_permission_denied | B_data_directory
  | B_curl3 | B_curl4 | B_shutting_down | B_aborting | B_primary | B_member | B_unmatched

definition line_branch :: "string \<Rightarrow> stdout_branch" where
  "line_branch line =
     (if re_test re_waiting line then B_waiting
      else if re_test re_addr_in_use line then B_addr_in_use
      else if re_test re_already_running line then B_already_running
      else if re_test re_permission_denied line then B_permission_denied
      else if re_test re_data_directory line then B_data_directory
      else if re_test re_curl3 line then B_curl3
      else if re_test re_curl4 line then B_curl4
      else if re_test re_shutting_down line then B_shutting_down
      else if re_test re_aborting line then B_aborting
      else if re_test re_primary line then B_primary
      else if re_test re_member line then B_member
      else B_unmatched)"

text \<open>The error a branch passes to \<^verbatim>\<open>this.instanceFailed\<close>, for the branches that call it.\<close>

definition failure_message :: "MongoInstanceOpts \<Rightarrow> stdout_branch \<Rightarrow> string option" where
  "failure_message opts b =
     (case b of
        B_addr_in_use \<Rightarrow> Some (port_in_use_message opts)
      | B_already_running \<Rightarrow> Some ''Mongod already running''
      | B_permission_denied \<Rightarrow> Some ''Mongod permission denied''
      | B_data_directory \<Rightarrow> Some ''Data directory not found''
      | B_curl3 \<Rightarrow> Some libcurl3_message
      | B_curl4 \<Rightarrow> Some libcurl4_message
      | B_shutting_down \<Rightarrow> Some ''Mongod shutting down''
      | B_aborting \<Rightarrow> Some ''Mongod internal error''
      | _ \<Rightarrow> None)"

text \<open>The effects a state has added to those of an earlier one.\<close>

definition effects_since :: "MongoInstance \<Rightarrow> MongoInstance \<Rightarrow> effect list" where
  "effects_since s s' = drop (length (trace s)) (trace s')"

fun is_Emit :: "effect \<Rightarrow> bool" where
  "is_Emit (Emit ev as) = True"
| "is_Emit e = False"

subsection \<open>Example states\<close>

definition example_opts :: MongoInstanceOpts where
  "example_opts = \<lparr>port = Some 27017, ip = None, storageEngine = None, dbPath = None,
     replSet = Some ''rs0'', args = None, auth = None\<rparr>"

definition example_child :: ChildProcess where
  "example_child = \<lparr>pid = Some 4001\<rparr>"

definition example_killer :: ChildProcess where
  "example_killer = \<lparr>pid = Some 4002\<rparr>"

text \<open>A process that exits 50 ms after SIGINT; one that exits only on SIGKILL; one from
  which no \<^verbatim>\<open>exit\<close> event comes.\<close>

definition prompt_exit :: exit_answers where
  "prompt_exit = \<lparr>exit_after_SIGINT = Some (50, Some 0, None),
     exit_after_SIGKILL = Some (5, None, Some ''SIGKILL'')\<rparr>"


definition no_exit :: exit_answers where
  "no_exit = \<lparr>exit_after_SIGINT = None, exit_after_SIGKILL = None\<rparr>"

text \<open>The handle once \<^verbatim>\<open>run()\<close> awaits \<^verbatim>\<open>launch\<close>, debugging disabled.\<close>

definition launched :: MongoInstance where
  "launched = fst (run (constructor example_opts \<lparr>stdio = None\<rparr> False) (Inr ''/bin/mongod'')
     ''node'' ''mongo_killer.js'' 4000 example_child example_killer)"

text \<open>The same handle after the line that makes it ready.\<close>

definition ready :: MongoInstance where
  "ready = stdoutHandler launched ''waiting for connections on port 27017''"

section \<open>Normal forms of the handlers\<close>

lemma stdoutHandler_branch:
  "stdoutHandler s0 line =
     (let s = stdout_line s0 line in
      case line_branch line of
        B_waiting \<Rightarrow> emit (instanceReady_call s) Ev_instanceReady []
      | B_addr_in_use \<Rightarrow> instanceFailed_call s (port_in_use_message (instanceOpts s))
      | B_already_running \<Rightarrow> instanceFailed_call s ''Mongod already running''
      | B_permission_denied \<Rightarrow> instanceFailed_call s ''Mongod permission denied''
      | B_data_directory \<Rightarrow> instanceFailed_call s ''Data directory not found''
      | B_curl3 \<Rightarrow> instanceFailed_call s libcurl3_message
      | B_curl4 \<Rightarrow> instanceFailed_call s libcurl4_message
      | B_shutting_down \<Rightarrow>
          (if \<not> isInstanceReady s then instanceFailed_call s ''Mongod shutting down'' else s)
      | B_aborting \<Rightarrow> instanceFailed_call s ''Mongod internal error''
      | B_primary \<Rightarrow>
          (let s1 = s\<lparr>isInstancePrimary := True\<rparr>;
               s2 = debug s1 ''Calling all waitForPrimary resolve functions'';
               s3 = emit s2 Ev_instancePrimary []
           in fold (\<lambda>resolve t. resolveFn t resolve True) (waitForPrimaryResolveFns s3) s3)
      | B_member \<Rightarrow>
          (let state = (case re_exec_group re_member_pre re_member_grp line of
                          Some g \<Rightarrow> g | None \<Rightarrow> ''UNKOWN'');
               s1 = emit s Ev_instanceState [Str state]
           in if state \<noteq> ''PRIMARY'' then s1\<lparr>isInstancePrimary := False\<rparr> else s1)
      | B_unmatched \<Rightarrow> s)"
  unfolding stdoutHandler_def line_branch_def Let_def by simp

text \<open>Printing a numeral, for the examples.\<close>

lemma show_nat_small: "n < 10 \<Longrightarrow> show_nat n = [digit_char n]"
  by (subst show_nat.simps) simp

lemma show_nat_large: "\<not> n < 10 \<Longrightarrow> show_nat n = show_nat (n div 10) @ [digit_char (n mod 10)]"
  by (subst show_nat.simps) simp

lemmas show_number = number_toString_def show_nat_small show_nat_large digit_char_def

lemma launched_eq: "launched = 
\<lparr>instanceOpts = example_opts,
    spawnOpts = \<lparr>stdio = Some ''pipe''\<rparr>,
    childProcess = Some example_child,
    killerProcess = Some example_killer,
    waitForPrimaryResolveFns = [], isInstancePrimary = False,
    isInstanceReady = False, instanceReady = ReadyRun,
    instanceFailed = FailedRun, launch = Some Pending, primaryPromises = [],
    debugEnabled = False,
    trace =
      [Spawn ''/bin/mongod''
        [''--bind_ip'', ''127.0.0.1'', ''--port'', ''27017'', ''--noauth'',
         ''--replSet'', ''rs0''],
       Emit Ev_instanceLaunched [],
       Spawn ''node'' [''mongo_killer.js'', ''4000'', ''4001''],
       Emit Ev_killerLaunched []]\<rparr>"
  by (simp add: launched_def run_def run_executor_def constructor_def launchMongod_def launchKiller_def
      Let_def effect_def emit_def debug_def debug_effects_def truthy_string_def truthy_number_def
      truthy_bool_def prepareCommandArgs_def example_opts_def example_child_def show_number)

lemma stdout_line_eq:
  "stdout_line s line =
     s\<lparr>trace := trace s @ debug_effects s (''STDOUT: '' @ line) @ [Emit Ev_instanceSTDOUT [Str line]]\<rparr>"
  by (simp add: stdout_line_def emit_def effect_def debug_def debug_effects_def)

lemma instanceFailed_call_eq:
  "instanceFailed s = FailedRun \<Longrightarrow>
   instanceFailed_call s err =
     s\<lparr>trace := trace s @ debug_effects s (''MongodbInstance: Instance has failed: '' @ err) @
          (case killerProcess s of None \<Rightarrow> [] | Some k \<Rightarrow> [ProcessKill k SIGTERM]) @ [LaunchReject err],
       launch := (if launch s = Some Pending then Some (Rejected err) else launch s)\<rparr>"
  by (simp add: instanceFailed_call_def launch_reject_def process_kill_def effect_def debug_def
      debug_effects_def Let_def split: option.splits)

lemma instanceReady_call_eq:
  "instanceReady s = ReadyRun \<Longrightarrow>
   instanceReady_call s =
     s\<lparr>isInstanceReady := True,
       trace := trace s @ debug_effects s ''MongodbInstance: Instance is ready!'' @ [LaunchResolve],
       launch := (if launch s = Some Pending then Some Fulfilled else launch s)\<rparr>"
  by (simp add: instanceReady_call_def launch_resolve_def effect_def debug_def debug_effects_def)

lemma branch_examples:
  "line_branch ''waiting for connections on port 27017'' = B_waiting"
  "line_branch ''addr already in use'' = B_addr_in_use"
  "line_branch ''address already in use'' = B_unmatched"
  "line_branch ''shutting down with code:0'' = B_shutting_down"
  "line_branch ''transition to primary complete; database writes are now permitted'' = B_primary"
  "line_branch ''Member 127.0.0.1:27018 is now in state SECONDARY'' = B_member"
  "line_branch ''Member 127.0.0.1:27018 is now in state PRIMARY'' = B_member"
  "line_branch ''Member localhost:27018 is now in state SECONDARY'' = B_unmatched"
  by code_simp+

lemma ready_eq:
  "ready = launched\<lparr>isInstanceReady := True,
     trace := trace launched @ [Emit Ev_instanceSTDOUT [Str ''waiting for connections on port 27017''],
               LaunchResolve, Emit Ev_instanceReady []],
     launch := Some Fulfilled\<rparr>"
  by (simp add: ready_def stdoutHandler_branch branch_examples stdout_line_eq instanceReady_call_eq
      emit_def effect_def debug_effects_def launched_eq)

lemma effects_since_append: "trace s' = trace s @ new \<Longrightarrow> effects_since s s' = new"
  by (simp add: effects_since_def)

lemma debug_effects_not_emit: "filter is_Emit (debug_effects s msg) = []"
  by (simp add: debug_effects_def)

lemma debug_effects_trace [simp]: "debug_effects (s\<lparr>trace := t\<rparr>) msg = debug_effects s msg"
  by (simp add: debug_effects_def)

lemma stdoutHandler_failure:
  assumes f: "instanceFailed s = FailedRun"
    and m: "failure_message (instanceOpts s) (line_branch line) = Some err"
    and r: "line_branch line = B_shutting_down \<longrightarrow> \<not> isInstanceReady s"
  shows "stdoutHandler s line = instanceFailed_call (stdout_line s line) err"
  using m r by (cases "line_branch line")
    (simp_all add: stdoutHandler_branch failure_message_def Let_def stdout_line_eq)

lemma stdoutHandler_failure_eq:
  assumes f: "instanceFailed s = FailedRun"
    and m: "failure_message (instanceOpts s) (line_branch line) = Some err"
    and r: "line_branch line = B_shutting_down \<longrightarrow> \<not> isInstanceReady s"
  shows "stdoutHandler s line =
     s\<lparr>trace := trace s @ debug_effects s (''STDOUT: '' @ line) @ [Emit Ev_instanceSTDOUT [Str line]] @
          debug_effects s (''MongodbInstance: Instance has failed: '' @ err) @
          (case killerProcess s of None \<Rightarrow> [] | Some k \<Rightarrow> [ProcessKill k SIGTERM]) @ [LaunchReject err],
       launch := (if launch s = Some Pending then Some (Rejected err) else launch s)\<rparr>"
proof -
  have "instanceFailed (stdout_line s line) = FailedRun"
    using f by (simp add: stdout_line_eq)
  then show ?thesis
    unfolding stdoutHandler_failure [OF f m r]
    by (simp add: instanceFailed_call_eq) (simp add: stdout_line_eq)
qed

lemma launched_fields:
  "instanceFailed launched = FailedRun" "instanceReady launched = ReadyRun"
  "isInstanceReady launched = False" "launch launched = Some Pending"
  "killerProcess launched = Some example_killer" "childProcess launched = Some example_child"
  "debugEnabled launched = False" "instanceOpts launched = example_opts"
  "isInstancePrimary launched = False" "waitForPrimaryResolveFns launched = []"
  "primaryPromises launched = []"
  by (simp_all add: launched_eq)

lemma ready_fields:
  "instanceFailed ready = FailedRun" "instanceReady ready = ReadyRun"
  "isInstanceReady ready = True" "launch ready = Some Fulfilled"
  "killerProcess ready = Some example_killer" "childProcess ready = Some example_child"
  "debugEnabled ready = False" "instanceOpts ready = example_opts"
  "isInstancePrimary ready = False" "waitForPrimaryResolveFns ready = []"
  "primaryPromises ready = []"
  by (simp_all add: ready_eq launched_fields)

lemma example_port_message: "port_in_use_message example_opts = ''Port 27017 already in use''"
  by (simp add: port_in_use_message_def example_opts_def show_number)

section \<open>Failures detected by the classifier\<close>

text \<open>
  C1, as amended. Once \<^verbatim>\<open>run()\<close> has installed its callbacks, every branch of
  \<^verbatim>\<open>stdoutHandler\<close> that detects a failure (the shutting-down branch only while the
  instance is not ready) does nothing but call \<^verbatim>\<open>this.instanceFailed(err)\<close> after the raw
  stdout notification. The call logs, sends SIGTERM to the killer process when there is
  one, and calls \<^verbatim>\<open>reject(err)\<close>, which settles the launch promise only if it is still
  pending. The raw stdout notification is the only event emitted: there is no
  \<^verbatim>\<open>instanceError\<close> event, and after the launch promise has settled the failure reaches no
  listener at all.
\<close>

theorem classifier_failure_funnel:
  assumes "instanceFailed s = FailedRun"
    and "failure_message (instanceOpts s) (line_branch line) = Some err"
    and "line_branch line = B_shutting_down \<longrightarrow> \<not> isInstanceReady s"
  shows "stdoutHandler s line = instanceFailed_call (stdout_line s line) err \<and>
     launch (stdoutHandler s line) = (if launch s = Some Pending then Some (Rejected err) else launch s) \<and>
     effects_since s (stdoutHandler s line) =
       debug_effects s (''STDOUT: '' @ line) @ [Emit Ev_instanceSTDOUT [Str line]] @
       debug_effects s (''MongodbInstance: Instance has failed: '' @ err) @
       (case killerProcess s of None \<Rightarrow> [] | Some k \<Rightarrow> [ProcessKill k SIGTERM]) @ [LaunchReject err] \<and>
     filter is_Emit (effects_since s (stdoutHandler s line)) = [Emit Ev_instanceSTDOUT [Str line]]"
proof -
  note e = stdoutHandler_failure_eq [OF assms]
  have t: "effects_since s (stdoutHandler s line) =
       debug_effects s (''STDOUT: '' @ line) @ [Emit Ev_instanceSTDOUT [Str line]] @
       debug_effects s (''MongodbInstance: Instance has failed: '' @ err) @
       (case killerProcess s of None \<Rightarrow> [] | Some k \<Rightarrow> [ProcessKill k SIGTERM]) @ [LaunchReject err]"
    by (rule effects_since_append) (simp add: e)
  have "filter is_Emit (effects_since s (stdoutHandler s line)) = [Emit Ev_instanceSTDOUT [Str line]]"
    unfolding t by (simp add: debug_effects_not_emit split: option.splits)
  moreover have "launch (stdoutHandler s line) = (if launch s = Some Pending then Some (Rejected err) else launch s)"
    by (simp add: e)
  ultimately show ?thesis
    using stdoutHandler_failure [OF assms] t by simp
qed

theorem classifier_failure_funnel_witness:
  "launch (stdoutHandler launched ''addr already in use'') = Some (Rejected ''Port 27017 already in use'') \<and>
   effects_since launched (stdoutHandler launched ''addr already in use'') =
     [Emit Ev_instanceSTDOUT [Str ''addr already in use''], ProcessKill example_killer SIGTERM,
      LaunchReject ''Port 27017 already in use''] \<and>
   filter is_Emit (effects_since launched (stdoutHandler launched ''addr already in use'')) =
     [Emit Ev_instanceSTDOUT [Str ''addr already in use'']]"
proof -
  have m: "failure_message (instanceOpts launched) (line_branch ''addr already in use'') =
      Some ''Port 27017 already in use''"
    by (simp add: branch_examples failure_message_def launched_fields example_port_message)
  have r: "line_branch ''addr already in use'' = B_shutting_down \<longrightarrow> \<not> isInstanceReady launched"
    by (simp add: branch_examples)
  show ?thesis
    using classifier_failure_funnel [OF launched_fields(1) m r, THEN conjunct2]
    by (simp add: launched_fields debug_effects_def)
qed

text \<open>
  C1 as stated fails. The line \<^verbatim>\<open>addr already in use\<close> is a detected failure; fed to the
  ready handle, whose launch promise is fulfilled, and to the handle still launching, it
  emits the raw stdout event and nothing else: the killer process is signalled and
  \<^verbatim>\<open>reject\<close> is called (without effect on the fulfilled promise), but no error
  notification of any kind is emitted.
\<close>

theorem classifier_failure_no_error_event:
  "line_branch ''addr already in use'' = B_addr_in_use \<and>
   launch ready = Some Fulfilled \<and>
   launch (stdoutHandler ready ''addr already in use'') = Some Fulfilled \<and>
   effects_since ready (stdoutHandler ready ''addr already in use'') =
     [Emit Ev_instanceSTDOUT [Str ''addr already in use''], ProcessKill example_killer SIGTERM,
      LaunchReject ''Port 27017 already in use''] \<and>
   effects_since launched (stdoutHandler launched ''addr already in use'') =
     [Emit Ev_instanceSTDOUT [Str ''addr already in use''], ProcessKill example_killer SIGTERM,
      LaunchReject ''Port 27017 already in use'']"
proof -
  have m: "failure_message (instanceOpts ready) (line_branch ''addr already in use'') =
      Some ''Port 27017 already in use''"
    by (simp add: branch_examples failure_message_def ready_fields example_port_message)
  have m': "failure_message (instanceOpts launched) (line_branch ''addr already in use'') =
      Some ''Port 27017 already in use''"
    by (simp add: branch_examples failure_message_def launched_fields example_port_message)
  have r: "line_branch ''addr already in use'' = B_shutting_down \<longrightarrow> \<not> isInstanceReady ready"
    "line_branch ''addr already in use'' = B_shutting_down \<longrightarrow> \<not> isInstanceReady launched"
    by (simp_all add: branch_examples)
  have a: "effects_since ready (stdoutHandler ready ''addr already in use'') =
     [Emit Ev_instanceSTDOUT [Str ''addr already in use''], ProcessKill example_killer SIGTERM,
      LaunchReject ''Port 27017 already in use'']"
    by (rule effects_since_append)
      (simp add: stdoutHandler_failure_eq [OF ready_fields(1) m r(1)] ready_fields debug_effects_def)
  have b: "effects_since launched (stdoutHandler launched ''addr already in use'') =
     [Emit Ev_instanceSTDOUT [Str ''addr already in use''], ProcessKill example_killer SIGTERM,
      LaunchReject ''Port 27017 already in use'']"
    by (rule effects_since_append)
      (simp add: stdoutHandler_failure_eq [OF launched_fields(1) m' r(2)] launched_fields debug_effects_def)
  have c: "launch (stdoutHandler ready ''addr already in use'') = Some Fulfilled"
    by (simp add: stdoutHandler_failure_eq [OF ready_fields(1) m r(1)] ready_fields)
  show ?thesis using a b c by (simp add: branch_examples ready_fields)
qed

text \<open>A line contains a text, up to letter case: what a pattern of plain characters
  tests.\<close>

definition ci_contains :: "string \<Rightarrow> string \<Rightarrow> bool" where
  "ci_contains line p = (\<exists>a m r. line = a @ m @ r \<and> ci_equal m p)"

lemma re_test_lit: "re_test (lit p) line \<longleftrightarrow> ci_contains line p"
  by (simp add: re_test_iff accepts_lit ci_contains_def)

lemma instanceFailed_call_fields:
  "isInstanceReady (instanceFailed_call s err) = isInstanceReady s"
  "isInstancePrimary (instanceFailed_call s err) = isInstancePrimary s"
  "primaryPromises (instanceFailed_call s err) = primaryPromises s"
  "waitForPrimaryResolveFns (instanceFailed_call s err) = waitForPrimaryResolveFns s"
  "instanceFailed (instanceFailed_call s err) = instanceFailed s"
  "instanceReady (instanceFailed_call s err) = instanceReady s"
  by (simp_all add: instanceFailed_call_def launch_reject_def process_kill_def effect_def debug_def
      Let_def split: failed_callback.splits option.splits)

lemma instanceReady_call_fields:
  "isInstanceReady (instanceReady_call s) = (isInstanceReady s \<or> instanceReady s = ReadyRun)"
  "isInstancePrimary (instanceReady_call s) = isInstancePrimary s"
  "primaryPromises (instanceReady_call s) = primaryPromises s"
  "waitForPrimaryResolveFns (instanceReady_call s) = waitForPrimaryResolveFns s"
  "instanceFailed (instanceReady_call s) = instanceFailed s"
  "instanceReady (instanceReady_call s) = instanceReady s"
  by (simp_all add: instanceReady_call_def launch_resolve_def effect_def debug_def
      split: ready_callback.splits)

lemma fold_resolveFn_fields:
  "isInstanceReady (fold (\<lambda>i t. resolveFn t i v) fns s) = isInstanceReady s"
  "isInstancePrimary (fold (\<lambda>i t. resolveFn t i v) fns s) = isInstancePrimary s"
  "waitForPrimaryResolveFns (fold (\<lambda>i t. resolveFn t i v) fns s) = waitForPrimaryResolveFns s"
  "instanceFailed (fold (\<lambda>i t. resolveFn t i v) fns s) = instanceFailed s"
  "instanceReady (fold (\<lambda>i t. resolveFn t i v) fns s) = instanceReady s"
  "launch (fold (\<lambda>i t. resolveFn t i v) fns s) = launch s"
  by (induction fns arbitrary: s; simp add: resolveFn_def effect_def)+


lemma classifier_failure_parts:
  assumes "instanceFailed s = FailedRun"
    and "failure_message (instanceOpts s) (line_branch line) = Some err"
    and "line_branch line = B_shutting_down \<longrightarrow> \<not> isInstanceReady s"
  shows "effects_since s (stdoutHandler s line) =
       debug_effects s (''STDOUT: '' @ line) @ [Emit Ev_instanceSTDOUT [Str line]] @
       debug_effects s (''MongodbInstance: Instance has failed: '' @ err) @
       (case killerProcess s of None \<Rightarrow> [] | Some k \<Rightarrow> [ProcessKill k SIGTERM]) @ [LaunchReject err]"
    and "launch (stdoutHandler s line) = (if launch s = Some Pending then Some (Rejected err) else launch s)"
    and "stdoutHandler s line = instanceFailed_call (stdout_line s line) err"
    and "filter is_Emit (effects_since s (stdoutHandler s line)) = [Emit Ev_instanceSTDOUT [Str line]]"
proof -
  note e = stdoutHandler_failure_eq [OF assms]
  show t: "effects_since s (stdoutHandler s line) =
       debug_effects s (''STDOUT: '' @ line) @ [Emit Ev_instanceSTDOUT [Str line]] @
       debug_effects s (''MongodbInstance: Instance has failed: '' @ err) @
       (case killerProcess s of None \<Rightarrow> [] | Some k \<Rightarrow> [ProcessKill k SIGTERM]) @ [LaunchReject err]"
    by (rule effects_since_append) (simp add: e)
  show "filter is_Emit (effects_since s (stdoutHandler s line)) = [Emit Ev_instanceSTDOUT [Str line]]"
    unfolding t by (simp add: debug_effects_not_emit split: option.splits)
  show "launch (stdoutHandler s line) = (if launch s = Some Pending then Some (Rejected err) else launch s)"
    by (simp add: e)
  show "stdoutHandler s line = instanceFailed_call (stdout_line s line) err"
    by (rule stdoutHandler_failure [OF assms])
qed

section \<open>The shutting-down line\<close>



section \<open>The bind-conflict line\<close>

text \<open>
  C3, as amended. For a line that contains \<^verbatim>\<open>addr already in use\<close> and does not
  contain \<^verbatim>\<open>waiting for connections\<close> (both up to letter case), on a handle whose
  callbacks \<^verbatim>\<open>run()\<close> has installed: a pending launch is rejected with
  \<^verbatim>\<open>Port <port> already in use\<close>, where \<^verbatim>\<open><port>\<close> is the configured port or
  \<^verbatim>\<open>undefined\<close>; a launch that has settled stays as it is; and in both cases the raw
  stdout notification is the only event emitted.
\<close>

theorem addr_in_use_rejects_pending_launch:
  assumes "instanceFailed s = FailedRun"
    and "ci_contains line ''addr already in use''"
    and "\<not> ci_contains line ''waiting for connections''"
  shows "line_branch line = B_addr_in_use \<and>
     (launch s = Some Pending \<longrightarrow>
        launch (stdoutHandler s line) = Some (Rejected (''Port '' @
          (case port (instanceOpts s) of None \<Rightarrow> ''undefined'' | Some n \<Rightarrow> number_toString n) @
          '' already in use''))) \<and>
     (launch s \<noteq> Some Pending \<longrightarrow> launch (stdoutHandler s line) = launch s) \<and>
     filter is_Emit (effects_since s (stdoutHandler s line)) = [Emit Ev_instanceSTDOUT [Str line]]"
proof -
  have b: "line_branch line = B_addr_in_use"
    using assms(2,3) unfolding line_branch_def re_waiting_def re_addr_in_use_def re_test_lit by simp
  have m: "failure_message (instanceOpts s) (line_branch line) = Some (port_in_use_message (instanceOpts s))"
    by (simp add: b failure_message_def)
  have r: "line_branch line = B_shutting_down \<longrightarrow> \<not> isInstanceReady s"
    by (simp add: b)
  note p = classifier_failure_parts [OF assms(1) m r]
  show ?thesis
    using b p(2) p(4) unfolding port_in_use_message_def by simp
qed

theorem addr_in_use_rejects_pending_launch_witness:
  "line_branch ''addr already in use'' = B_addr_in_use \<and>
   launch (stdoutHandler launched ''addr already in use'') = Some (Rejected ''Port 27017 already in use'') \<and>
   launch (stdoutHandler ready ''addr already in use'') = Some Fulfilled \<and>
   filter is_Emit (effects_since ready (stdoutHandler ready ''addr already in use'')) =
     [Emit Ev_instanceSTDOUT [Str ''addr already in use'']]"
proof -
  have c: "ci_contains ''addr already in use'' ''addr already in use''"
    unfolding re_test_lit [symmetric] by code_simp
  have n: "\<not> ci_contains ''addr already in use'' ''waiting for connections''"
    unfolding re_test_lit [symmetric] by code_simp
  note a = addr_in_use_rejects_pending_launch [OF launched_fields(1) c n]
  note b = addr_in_use_rejects_pending_launch [OF ready_fields(1) c n]
  have "launch (stdoutHandler launched ''addr already in use'') = Some (Rejected (''Port '' @
          (case port (instanceOpts launched) of None \<Rightarrow> ''undefined'' | Some n \<Rightarrow> number_toString n) @
          '' already in use''))"
    using a launched_fields(4) by blast
  moreover have "launch (stdoutHandler ready ''addr already in use'') = launch ready"
    using b ready_fields(4) by simp
  moreover have "line_branch ''addr already in use'' = B_addr_in_use"
    using a by blast
  moreover have "filter is_Emit (effects_since ready (stdoutHandler ready ''addr already in use'')) =
     [Emit Ev_instanceSTDOUT [Str ''addr already in use'']]"
    using b by blast
  ultimately show ?thesis
    by (simp add: launched_fields ready_fields example_opts_def show_number)
qed

text \<open>
  C3 as stated fails twice. The line \<^verbatim>\<open>address already in use\<close> does not contain
  \<^verbatim>\<open>addr already in use\<close>: fed to the launching handle it is unmatched and the launch
  stays pending. And the matching line fed to the ready handle emits the raw stdout
  event only: no error notification.
\<close>

theorem address_already_in_use_not_detected:
  "launch launched = Some Pending \<and>
   launch (stdoutHandler launched ''address already in use'') = Some Pending \<and>
   effects_since launched (stdoutHandler launched ''address already in use'') =
     [Emit Ev_instanceSTDOUT [Str ''address already in use'']] \<and>
   effects_since ready (stdoutHandler ready ''addr already in use'') =
     [Emit Ev_instanceSTDOUT [Str ''addr already in use''], ProcessKill example_killer SIGTERM,
      LaunchReject ''Port 27017 already in use'']"
proof -
  have e: "stdoutHandler launched ''address already in use'' = stdout_line launched ''address already in use''"
    by (simp add: stdoutHandler_branch branch_examples)
  have a: "effects_since launched (stdoutHandler launched ''address already in use'') =
     [Emit Ev_instanceSTDOUT [Str ''address already in use'']]"
    by (rule effects_since_append) (simp add: e stdout_line_eq debug_effects_def launched_fields)
  have m: "failure_message (instanceOpts ready) (line_branch ''addr already in use'') =
      Some ''Port 27017 already in use''"
    by (simp add: branch_examples failure_message_def ready_fields example_port_message)
  have r: "line_branch ''addr already in use'' = B_shutting_down \<longrightarrow> \<not> isInstanceReady ready"
    by (simp add: branch_examples)
  have b: "effects_since ready (stdoutHandler ready ''addr already in use'') =
     [Emit Ev_instanceSTDOUT [Str ''addr already in use''], ProcessKill example_killer SIGTERM,
      LaunchReject ''Port 27017 already in use'']"
    using classifier_failure_parts(1) [OF ready_fields(1) m r]
    by (simp add: ready_fields debug_effects_def)
  show ?thesis
    using a b by (simp add: e stdout_line_eq launched_fields)
qed

section \<open>Events and flags after a line\<close>

text \<open>The text \<^verbatim>\<open>stdoutHandler\<close> reports as the member state of a line.\<close>

definition member_state :: "string \<Rightarrow> string" where
  "member_state line =
     (case re_exec_group re_member_pre re_member_grp line of Some g \<Rightarrow> g | None \<Rightarrow> ''UNKOWN'')"

lemma fold_resolveFn_trace:
  "trace (fold (\<lambda>i t. resolveFn t i v) fns s) = trace s @ map (\<lambda>i. PrimaryResolve i v) fns"
  by (induction fns arbitrary: s) (simp_all add: resolveFn_def effect_def)

lemma fold_resolveFn_promises:
  "length (primaryPromises (fold (\<lambda>i t. resolveFn t i v) fns s)) = length (primaryPromises s) \<and>
   (\<forall>j<length (primaryPromises s).
      primaryPromises (fold (\<lambda>i t. resolveFn t i v) fns s) ! j =
        (if j \<in> set fns \<and> primaryPromises s ! j = None then Some v else primaryPromises s ! j))"
proof (induction fns arbitrary: s)
  case Nil
  then show ?case by simp
next
  case (Cons i fns)
  have p: "primaryPromises (resolveFn s i v) =
      (if i < length (primaryPromises s) \<and> primaryPromises s ! i = None
       then (primaryPromises s)[i := Some v] else primaryPromises s)"
    by (simp add: resolveFn_def effect_def)
  show ?case
    using Cons [of "resolveFn s i v"] by (auto simp: p nth_list_update)
qed



lemma stdout_line_fields:
  "isInstanceReady (stdout_line s line) = isInstanceReady s"
  "isInstancePrimary (stdout_line s line) = isInstancePrimary s"
  "primaryPromises (stdout_line s line) = primaryPromises s"
  "waitForPrimaryResolveFns (stdout_line s line) = waitForPrimaryResolveFns s"
  "instanceFailed (stdout_line s line) = instanceFailed s"
  "instanceReady (stdout_line s line) = instanceReady s"
  "launch (stdout_line s line) = launch s"
  "debugEnabled (stdout_line s line) = debugEnabled s"
  "instanceOpts (stdout_line s line) = instanceOpts s"
  by (simp_all add: stdout_line_eq)


lemma stdoutHandler_isInstancePrimary:
  "isInstancePrimary (stdoutHandler s line) =
     (case line_branch line of
        B_primary \<Rightarrow> True
      | B_member \<Rightarrow> (if member_state line \<noteq> ''PRIMARY'' then False else isInstancePrimary s)
      | _ \<Rightarrow> isInstancePrimary s)"
  unfolding stdoutHandler_branch Let_def member_state_def [symmetric]
  by (cases "line_branch line")
    (simp_all add: instanceFailed_call_fields instanceReady_call_fields fold_resolveFn_fields
      stdout_line_fields emit_def effect_def debug_def)

section \<open>The member-state line\<close>














section \<open>The election line and the primary waiters\<close>

text \<open>The launching handle after one call of \<^verbatim>\<open>waitPrimaryReady()\<close>, for the examples.\<close>

definition waiting :: MongoInstance where
  "waiting = fst (waitPrimaryReady launched)"

lemma waiting_eq:
  "waiting = launched\<lparr>primaryPromises := [None], waitForPrimaryResolveFns := [0]\<rparr>"
  "snd (waitPrimaryReady launched) = Awaiting 0"
  by (simp_all add: waiting_def waitPrimaryReady_def launched_fields Let_def)


lemma waiting_fields:
  "primaryPromises waiting = [None]" "waitForPrimaryResolveFns waiting = [0]"
  "debugEnabled waiting = False" "isInstancePrimary waiting = False"
  "launch waiting = Some Pending" "instanceFailed waiting = FailedRun"
  "killerProcess waiting = Some example_killer" "childProcess waiting = Some example_child"
  "instanceOpts waiting = example_opts" "isInstanceReady waiting = False"
  by (simp_all add: waiting_eq launched_fields)

lemma stdoutHandler_waitForPrimaryResolveFns:
  "waitForPrimaryResolveFns (stdoutHandler s line) = waitForPrimaryResolveFns s"
  unfolding stdoutHandler_branch Let_def
  by (cases "line_branch line")
    (simp_all add: instanceFailed_call_fields instanceReady_call_fields fold_resolveFn_fields
      stdout_line_fields emit_def effect_def debug_def)

lemma stdoutHandler_primaryPromises:
  "length (primaryPromises (stdoutHandler s line)) = length (primaryPromises s) \<and>
   (\<forall>j<length (primaryPromises s).
      primaryPromises (stdoutHandler s line) ! j =
        (if line_branch line = B_primary \<and> j \<in> set (waitForPrimaryResolveFns s) \<and>
            primaryPromises s ! j = None
         then Some True else primaryPromises s ! j))"
proof (cases "line_branch line = B_primary")
  case True
  define x where "x = emit (debug ((stdout_line s line)\<lparr>isInstancePrimary := True\<rparr>)
      ''Calling all waitForPrimary resolve functions'') Ev_instancePrimary []"
  have x: "primaryPromises x = primaryPromises s" "waitForPrimaryResolveFns x = waitForPrimaryResolveFns s"
    by (simp_all add: x_def emit_def effect_def debug_def stdout_line_fields)
  have "stdoutHandler s line = fold (\<lambda>i t. resolveFn t i True) (waitForPrimaryResolveFns x) x"
    unfolding stdoutHandler_branch Let_def x_def using True by simp
  then show ?thesis
    using fold_resolveFn_promises [of True "waitForPrimaryResolveFns x" x] True by (simp add: x)
next
  case False
  then have "primaryPromises (stdoutHandler s line) = primaryPromises s"
    unfolding stdoutHandler_branch Let_def
    by (cases "line_branch line")
      (simp_all add: instanceFailed_call_fields instanceReady_call_fields
        stdout_line_fields emit_def effect_def)
  then show ?thesis using False by simp
qed

lemma stdoutHandler_primary_effects:
  assumes "line_branch line = B_primary"
  shows "effects_since s (stdoutHandler s line) =
     debug_effects s (''STDOUT: '' @ line) @ [Emit Ev_instanceSTDOUT [Str line]] @
     debug_effects s ''Calling all waitForPrimary resolve functions'' @ [Emit Ev_instancePrimary []] @
     map (\<lambda>i. PrimaryResolve i True) (waitForPrimaryResolveFns s)"
  by (rule effects_since_append)
    (simp add: stdoutHandler_branch Let_def assms fold_resolveFn_trace emit_def effect_def debug_def
      stdout_line_eq debug_effects_def)

section \<open>Shutdown\<close>

text \<open>The signals a list of effects sends, in order.\<close>

fun kill_signals :: "effect list \<Rightarrow> (ChildProcess \<times> kill_signal) list" where
  "kill_signals [] = []"
| "kill_signals (ProcessKill p g # es) = (p, g) # kill_signals es"
| "kill_signals (e # es) = kill_signals es"

text \<open>The \<^verbatim>\<open>exit\<close> event comes before the first timer runs, 10 seconds after SIGINT; it
  comes before the second timer runs, 10 seconds after SIGKILL.\<close>

definition exits_on_SIGINT :: "exit_answers \<Rightarrow> bool" where
  "exits_on_SIGINT a = (case exit_after_SIGINT a of None \<Rightarrow> False | Some (d, ev) \<Rightarrow> d < 10000)"

definition exits_on_SIGKILL :: "exit_answers \<Rightarrow> bool" where
  "exits_on_SIGKILL a =
     ((case exit_after_SIGKILL a of None \<Rightarrow> False | Some (d, ev) \<Rightarrow> d < 10000) \<or>
      (case exit_after_SIGINT a of None \<Rightarrow> False | Some (d, ev) \<Rightarrow> d < 20000))"

text \<open>The signals \<^verbatim>\<open>kill_internal\<close> sends to a process with these answers.\<close>

definition signals_sent :: "exit_answers \<Rightarrow> kill_signal list" where
  "signals_sent a = (if exits_on_SIGINT a then [SIGINT] else [SIGINT, SIGKILL])"

definition stuck :: "exit_answers \<Rightarrow> bool" where
  "stuck a = (\<not> exits_on_SIGINT a \<and> \<not> exits_on_SIGKILL a)"

definition stuck_message :: string where
  "stuck_message = ''Process didnt exit, enable debug for more information.''"

lemma kill_signals_append: "kill_signals (a @ b) = kill_signals a @ kill_signals b"
  by (induction a rule: kill_signals.induct) simp_all

lemma kill_signals_debug: "kill_signals (debug_effects s m) = []"
  by (simp add: debug_effects_def)

lemma debug_eq: "debug s m = s\<lparr>trace := trace s @ debug_effects s m\<rparr>"
  by (simp add: debug_def)

lemma timeoutTime_eq: "timeoutTime = 10000"
  by (simp add: timeoutTime_def)

lemma escalation_in_time:
  "\<not> exits_on_SIGINT a \<Longrightarrow>
   (case exit_after_escalation a of None \<Rightarrow> False | Some (d, c, g) \<Rightarrow> d < timeoutTime) = exits_on_SIGKILL a"
  by (auto simp: exit_after_escalation_def exits_on_SIGINT_def exits_on_SIGKILL_def timeoutTime_eq Let_def
      split: option.splits prod.splits)

lemma kill_escalate_eq:
  assumes "\<not> exits_on_SIGINT a"
  shows "\<exists>X. fst (kill_escalate s p n a) = s\<lparr>trace := trace s @ X\<rparr> \<and> kill_signals X = [(p, SIGKILL)] \<and>
     snd (kill_escalate s p n a) = (if exits_on_SIGKILL a then Inr () else Inl stuck_message)"
proof -
  define w where "w = (if \<not> debugEnabled s
      then [ConsoleWarn (''An Process didnt exit with signal \"SIGINT\" within 10 seconds, using \"SIGKILL\"!'' @
                   [CHR 0x0A] @ ''Enable debug logs for more information'')] else [])"
  define pre where "pre = debug_effects s ''kill_internal timeout triggered, trying SIGKILL'' @ w @ [ProcessKill p SIGKILL]"
  define s3 where "s3 = s\<lparr>trace := trace s @ pre\<rparr>"
  have k: "kill_signals pre = [(p, SIGKILL)]"
    by (simp add: pre_def w_def kill_signals_append kill_signals_debug)
  have e: "kill_escalate s p n a =
      (case exit_after_escalation a of
           Some (d, c, g) \<Rightarrow>
             if d < timeoutTime then (exit_listener s3 n c g, Inr ())
             else (debug s3 ''kill_internal timeout triggered again, rejecting'', Inl stuck_message)
         | None \<Rightarrow> (debug s3 ''kill_internal timeout triggered again, rejecting'', Inl stuck_message))"
    unfolding kill_escalate_def Let_def s3_def pre_def w_def stuck_message_def
    by (simp add: debug_def debug_effects_def process_kill_def effect_def exit_listener_def
        split: option.splits prod.splits)
  have x: "\<exists>X. debug s3 m = s\<lparr>trace := trace s @ X\<rparr> \<and> kill_signals X = [(p, SIGKILL)]" for m
  proof -
    have "debug s3 m = s\<lparr>trace := trace s @ (pre @ debug_effects s3 m)\<rparr> \<and>
        kill_signals (pre @ debug_effects s3 m) = [(p, SIGKILL)]"
      by (simp add: debug_eq s3_def kill_signals_append k kill_signals_debug)
    then show ?thesis by blast
  qed
  have y: "\<exists>X. exit_listener s3 n c g = s\<lparr>trace := trace s @ X\<rparr> \<and> kill_signals X = [(p, SIGKILL)]" for c g
    unfolding exit_listener_def by (rule x)
  show ?thesis
  proof (cases "exit_after_escalation a")
    case None
    then show ?thesis
      using x [of "''kill_internal timeout triggered again, rejecting''"] escalation_in_time [OF assms]
      by (simp add: e)
  next
    case (Some ev)
    obtain d c g where ev: "ev = (d, c, g)" by (cases ev) auto
    show ?thesis
      using x [of "''kill_internal timeout triggered again, rejecting''"] y [of c g]
        escalation_in_time [OF assms]
      by (simp add: e Some ev)
  qed
qed

lemma kill_internal_eq:
  "\<exists>X. fst (kill_internal s p n a) = s\<lparr>trace := trace s @ X\<rparr> \<and>
     kill_signals X = map (Pair p) (signals_sent a) \<and>
     snd (kill_internal s p n a) = (if stuck a then Inl stuck_message else Inr ())"
proof -
  define pre where "pre = debug_effects s (''- '' @ n @ '': send \"SIGINT\"'') @ [ProcessKill p SIGINT]"
  define s2 where "s2 = s\<lparr>trace := trace s @ pre\<rparr>"
  have k: "kill_signals pre = [(p, SIGINT)]"
    by (simp add: pre_def kill_signals_append kill_signals_debug)
  have e: "kill_internal s p n a =
      (case exit_after_SIGINT a of
           Some (d, c, g) \<Rightarrow>
             if d < timeoutTime then (exit_listener s2 n c g, Inr ())
             else kill_escalate s2 p n a
         | None \<Rightarrow> kill_escalate s2 p n a)"
  proof -
    have "process_kill (debug s (''- '' @ n @ '': send \"SIGINT\"'')) p SIGINT = s2"
      by (simp add: s2_def pre_def process_kill_def effect_def debug_def)
    then show ?thesis
      unfolding kill_internal_def Let_def by (simp split: option.splits prod.splits)
  qed
  have lis: "\<exists>X. exit_listener s2 n c g = s\<lparr>trace := trace s @ X\<rparr> \<and> kill_signals X = [(p, SIGINT)]" for c g
  proof -
    have "exit_listener s2 n c g = s\<lparr>trace := trace s @ (pre @ debug_effects s2
          (''- '' @ n @ '': got exit signal, Code: '' @ show_code c @ '', Signal: '' @ show_signal g))\<rparr> \<and>
        kill_signals (pre @ debug_effects s2
          (''- '' @ n @ '': got exit signal, Code: '' @ show_code c @ '', Signal: '' @ show_signal g)) = [(p, SIGINT)]"
      unfolding exit_listener_def by (simp add: debug_eq s2_def kill_signals_append k kill_signals_debug)
    then show ?thesis by blast
  qed
  show ?thesis
  proof (cases "exits_on_SIGINT a")
    case True
    then obtain d c g where ev: "exit_after_SIGINT a = Some (d, c, g)" "d < timeoutTime"
      unfolding exits_on_SIGINT_def timeoutTime_eq by (auto split: option.splits)
    have "kill_internal s p n a = (exit_listener s2 n c g, Inr ())"
      by (simp add: e ev)
    then show ?thesis
      using lis [of c g] True by (simp add: signals_sent_def stuck_def)
  next
    case False
    then have ke: "kill_internal s p n a = kill_escalate s2 p n a"
      unfolding exits_on_SIGINT_def e timeoutTime_eq by (auto split: option.splits)
    obtain Y where Y: "fst (kill_escalate s2 p n a) = s2\<lparr>trace := trace s2 @ Y\<rparr>"
      "kill_signals Y = [(p, SIGKILL)]"
      "snd (kill_escalate s2 p n a) = (if exits_on_SIGKILL a then Inr () else Inl stuck_message)"
      using kill_escalate_eq [OF False, of s2 p n] by blast
    have "fst (kill_internal s p n a) = s\<lparr>trace := trace s @ (pre @ Y)\<rparr> \<and>
        kill_signals (pre @ Y) = map (Pair p) (signals_sent a) \<and>
        snd (kill_internal s p n a) = (if stuck a then Inl stuck_message else Inr ())"
      using Y(1) Y(3) False by (simp add: ke Y(2) s2_def kill_signals_append k signals_sent_def stuck_def)
    then show ?thesis by blast
  qed
qed


lemma kill_killerProcess_eq:
  "\<exists>X. fst (kill_killerProcess s ka) = s\<lparr>trace := trace s @ X\<rparr> \<and>
     kill_signals X = (case killerProcess s of None \<Rightarrow> [] | Some k \<Rightarrow> map (Pair k) (signals_sent ka)) \<and>
     snd (kill_killerProcess s ka) =
       (if killerProcess s \<noteq> None \<and> stuck ka then Inl stuck_message else Inr ())"
proof (cases "killerProcess s")
  case None
  have "fst (kill_killerProcess s ka) =
      s\<lparr>trace := trace s @ (debug_effects s ''- killerProcess: nothing to shutdown, skipping.'' @
        debug_effects s ''Instance Finished Shutdown'')\<rparr> \<and>
      kill_signals (debug_effects s ''- killerProcess: nothing to shutdown, skipping.'' @
        debug_effects s ''Instance Finished Shutdown'') = [] \<and>
      snd (kill_killerProcess s ka) = Inr ()"
    by (simp add: kill_killerProcess_def None debug_eq kill_signals_append kill_signals_debug)
  then show ?thesis using None by auto
next
  case (Some k)
  obtain X where X: "fst (kill_internal s k ''killerProcess'' ka) = s\<lparr>trace := trace s @ X\<rparr>"
    "kill_signals X = map (Pair k) (signals_sent ka)"
    "snd (kill_internal s k ''killerProcess'' ka) = (if stuck ka then Inl stuck_message else Inr ())"
    using kill_internal_eq [of s k "''killerProcess''" ka] by blast
  show ?thesis
  proof (cases "stuck ka")
    case True
    then have "kill_internal s k ''killerProcess'' ka = (s\<lparr>trace := trace s @ X\<rparr>, Inl stuck_message)"
      using X(1) X(3) by (simp add: prod_eq_iff)
    then have "fst (kill_killerProcess s ka) = s\<lparr>trace := trace s @ X\<rparr> \<and>
        snd (kill_killerProcess s ka) = Inl stuck_message"
      by (simp add: kill_killerProcess_def Some)
    then show ?thesis using X(2) Some True by auto
  next
    case False
    then have "kill_internal s k ''killerProcess'' ka = (s\<lparr>trace := trace s @ X\<rparr>, Inr ())"
      using X(1) X(3) by (simp add: prod_eq_iff)
    then have "fst (kill_killerProcess s ka) =
        s\<lparr>trace := trace s @ (X @ debug_effects s ''Instance Finished Shutdown'')\<rparr> \<and>
        kill_signals (X @ debug_effects s ''Instance Finished Shutdown'') = map (Pair k) (signals_sent ka) \<and>
        snd (kill_killerProcess s ka) = Inr ()"
      by (simp add: kill_killerProcess_def Some debug_eq kill_signals_append kill_signals_debug X(2))
    then show ?thesis using Some False by auto
  qed
qed

lemma kill_eq:
  "\<exists>X. fst (kill s ca ka) = s\<lparr>trace := trace s @ X\<rparr> \<and>
     kill_signals X =
       (case childProcess s of None \<Rightarrow> [] | Some c \<Rightarrow> map (Pair c) (signals_sent ca)) @
       (if childProcess s \<noteq> None \<and> stuck ca then []
        else case killerProcess s of None \<Rightarrow> [] | Some k \<Rightarrow> map (Pair k) (signals_sent ka)) \<and>
     snd (kill s ca ka) =
       (if (childProcess s \<noteq> None \<and> stuck ca) \<or> (killerProcess s \<noteq> None \<and> stuck ka)
        then Inl stuck_message else Inr ())"
proof -
  define d0 where "d0 = debug_effects s ''Called MongoInstance.kill():''"
  define s0 where "s0 = s\<lparr>trace := trace s @ d0\<rparr>"
  have s0: "debug s ''Called MongoInstance.kill():'' = s0"
    by (simp add: s0_def d0_def debug_eq)
  have k0: "kill_signals d0 = []"
    by (simp add: d0_def kill_signals_debug)
  have f0: "childProcess s0 = childProcess s" "killerProcess s0 = killerProcess s"
    by (simp_all add: s0_def)
  have tail: "\<exists>X. fst (kill_killerProcess t ka) = s\<lparr>trace := trace s @ X\<rparr> \<and>
      kill_signals X = P @ (case killerProcess s of None \<Rightarrow> [] | Some k \<Rightarrow> map (Pair k) (signals_sent ka)) \<and>
      snd (kill_killerProcess t ka) = (if killerProcess s \<noteq> None \<and> stuck ka then Inl stuck_message else Inr ())"
    if t: "t = s\<lparr>trace := trace s @ Y\<rparr>" and y: "kill_signals Y = P" for t Y P
  proof -
    obtain Z where Z: "fst (kill_killerProcess t ka) = t\<lparr>trace := trace t @ Z\<rparr>"
      "kill_signals Z = (case killerProcess t of None \<Rightarrow> [] | Some k \<Rightarrow> map (Pair k) (signals_sent ka))"
      "snd (kill_killerProcess t ka) = (if killerProcess t \<noteq> None \<and> stuck ka then Inl stuck_message else Inr ())"
      using kill_killerProcess_eq [of t ka] by blast
    have kt: "killerProcess t = killerProcess s"
      by (simp add: t)
    have "fst (kill_killerProcess t ka) = s\<lparr>trace := trace s @ (Y @ Z)\<rparr> \<and>
        kill_signals (Y @ Z) = P @ (case killerProcess s of None \<Rightarrow> [] | Some k \<Rightarrow> map (Pair k) (signals_sent ka))"
      using Z(1) Z(2) by (simp add: t kill_signals_append y)
    then show ?thesis using Z(3) kt by auto
  qed
  show ?thesis
  proof (cases "childProcess s")
    case None
    have "kill s ca ka =
        kill_killerProcess (s\<lparr>trace := trace s @ (d0 @ debug_effects s ''- childProcess: nothing to shutdown, skipping.'')\<rparr>) ka"
      unfolding kill_def Let_def s0 by (simp add: f0 None debug_eq s0_def)
    then show ?thesis
      using tail [OF refl, of "d0 @ debug_effects s ''- childProcess: nothing to shutdown, skipping.''" "[]"]
      by (simp add: None kill_signals_append k0 kill_signals_debug)
  next
    case (Some c)
    obtain X where X: "fst (kill_internal s0 c ''childProcess'' ca) = s0\<lparr>trace := trace s0 @ X\<rparr>"
      "kill_signals X = map (Pair c) (signals_sent ca)"
      "snd (kill_internal s0 c ''childProcess'' ca) = (if stuck ca then Inl stuck_message else Inr ())"
      using kill_internal_eq [of s0 c "''childProcess''" ca] by blast
    define t where "t = s\<lparr>trace := trace s @ (d0 @ X)\<rparr>"
    have t: "s0\<lparr>trace := trace s0 @ X\<rparr> = t"
      by (simp add: t_def s0_def)
    show ?thesis
    proof (cases "stuck ca")
      case True
      then have "kill_internal s0 c ''childProcess'' ca = (t, Inl stuck_message)"
        using X(1) X(3) by (simp add: prod_eq_iff t)
      then have "fst (kill s ca ka) = s\<lparr>trace := trace s @ (d0 @ X)\<rparr> \<and>
          kill_signals (d0 @ X) = map (Pair c) (signals_sent ca) \<and> snd (kill s ca ka) = Inl stuck_message"
        unfolding kill_def Let_def s0 by (simp add: f0 Some t_def kill_signals_append k0 X(2))
      then show ?thesis using Some True by auto
    next
      case False
      then have "kill_internal s0 c ''childProcess'' ca = (t, Inr ())"
        using X(1) X(3) by (simp add: prod_eq_iff t)
      then have "kill s ca ka = kill_killerProcess t ka"
        unfolding kill_def Let_def s0 by (simp add: f0 Some)
      then show ?thesis
        using tail [OF t_def, of "map (Pair c) (signals_sent ca)"] Some False
        by (simp add: kill_signals_append k0 X(2))
    qed
  qed
qed






section \<open>Operations on a handle\<close>

text \<open>
  What can happen to a handle: a method call or an event of the child process, each with
  the arguments the environment supplies.
\<close>

datatype operation =
  Run "string + string" string string nat ChildProcess ChildProcess
  | Stdout string
  | Stderr string
  | ProcessError string
  | ProcessClose "int option"
  | WaitPrimaryReady
  | Kill exit_answers exit_answers

fun step :: "MongoInstance \<Rightarrow> operation \<Rightarrow> MongoInstance" where
  "step s (Run mongoBin node script parentPid child killer) =
     fst (run s mongoBin node script parentPid child killer)"
| "step s (Stdout line) = stdoutHandler s line"
| "step s (Stderr line) = stderrHandler s line"
| "step s (ProcessError err) = errorHandler s err"
| "step s (ProcessClose c) = closeHandler s c"
| "step s WaitPrimaryReady = fst (waitPrimaryReady s)"
| "step s (Kill child_answers killer_answers) = fst (kill s child_answers killer_answers)"

text \<open>The operation is a stdout line that reaches the election branch.\<close>

fun elects :: "operation \<Rightarrow> bool" where
  "elects (Stdout line) = (line_branch line = B_primary)"
| "elects op = False"

text \<open>
  The list of resolvers holds the promises \<^verbatim>\<open>waitPrimaryReady()\<close> has created, each once,
  in the order of their creation.
\<close>

definition resolvers_registered :: "MongoInstance \<Rightarrow> bool" where
  "resolvers_registered s = (waitForPrimaryResolveFns s = [0..<length (primaryPromises s)])"

lemma run_fields:
  "primaryPromises (fst (run s b n sc pp c k)) = primaryPromises s"
  "waitForPrimaryResolveFns (fst (run s b n sc pp c k)) = waitForPrimaryResolveFns s"
  by (simp_all add: run_def run_executor_def launchMongod_def launchKiller_def Let_def emit_def
      effect_def debug_def split: sum.splits prod.splits)

lemma kill_fields:
  "primaryPromises (fst (kill s ca ka)) = primaryPromises s"
  "waitForPrimaryResolveFns (fst (kill s ca ka)) = waitForPrimaryResolveFns s"
  "launch (fst (kill s ca ka)) = launch s"
proof -
  obtain X where X: "fst (kill s ca ka) = s\<lparr>trace := trace s @ X\<rparr>"
    using kill_eq [of s ca ka] by blast
  show "primaryPromises (fst (kill s ca ka)) = primaryPromises s"
    "waitForPrimaryResolveFns (fst (kill s ca ka)) = waitForPrimaryResolveFns s"
    "launch (fst (kill s ca ka)) = launch s"
    by (simp_all add: X)
qed

lemma other_handler_fields:
  "primaryPromises (stderrHandler s l) = primaryPromises s"
  "waitForPrimaryResolveFns (stderrHandler s l) = waitForPrimaryResolveFns s"
  "primaryPromises (closeHandler s c) = primaryPromises s"
  "waitForPrimaryResolveFns (closeHandler s c) = waitForPrimaryResolveFns s"
  "launch (closeHandler s c) = launch s"
  "primaryPromises (errorHandler s e) = primaryPromises s"
  "waitForPrimaryResolveFns (errorHandler s e) = waitForPrimaryResolveFns s"
  by (simp_all add: stderrHandler_def closeHandler_def errorHandler_def Let_def emit_def effect_def
      debug_def instanceFailed_call_fields)

lemma waitPrimaryReady_eq:
  "waitPrimaryReady s =
     (if isInstancePrimary s then (s, Immediately True)
      else (s\<lparr>primaryPromises := primaryPromises s @ [None],
              waitForPrimaryResolveFns := waitForPrimaryResolveFns s @ [length (primaryPromises s)]\<rparr>,
            Awaiting (length (primaryPromises s))))"
  by (simp add: waitPrimaryReady_def Let_def)

lemma step_not_waiting:
  assumes "op \<noteq> WaitPrimaryReady"
  shows "waitForPrimaryResolveFns (step s op) = waitForPrimaryResolveFns s"
    and "length (primaryPromises (step s op)) = length (primaryPromises s)"
    and "\<forall>j<length (primaryPromises s). primaryPromises (step s op) ! j =
        (if elects op \<and> j \<in> set (waitForPrimaryResolveFns s) \<and> primaryPromises s ! j = None
         then Some True else primaryPromises s ! j)"
  using assms stdoutHandler_primaryPromises [of s]
  by (cases op; simp add: run_fields kill_fields other_handler_fields
      stdoutHandler_waitForPrimaryResolveFns)+

lemma step_waiting:
  "waitForPrimaryResolveFns (step s WaitPrimaryReady) =
     (if isInstancePrimary s then waitForPrimaryResolveFns s
      else waitForPrimaryResolveFns s @ [length (primaryPromises s)])"
  "primaryPromises (step s WaitPrimaryReady) =
     (if isInstancePrimary s then primaryPromises s else primaryPromises s @ [None])"
  by (simp_all add: waitPrimaryReady_eq)

lemma registered_step: "resolvers_registered s \<Longrightarrow> resolvers_registered (step s op)"
proof (cases "op = WaitPrimaryReady")
  case True
  assume "resolvers_registered s"
  then show ?thesis
    unfolding resolvers_registered_def True step_waiting by simp
next
  case False
  assume "resolvers_registered s"
  then show ?thesis
    unfolding resolvers_registered_def using step_not_waiting(1,2) [OF False, of s] by simp
qed

lemma registered_steps: "resolvers_registered s \<Longrightarrow> resolvers_registered (foldl step s ops)"
  by (induction ops arbitrary: s) (simp_all add: registered_step)

lemma registered_constructor: "resolvers_registered (constructor iopts sopts dbg)"
  by (simp add: resolvers_registered_def constructor_def)

text \<open>One step on a promise that exists: an election line resolves it with \<^verbatim>\<open>true\<close> if it
  was pending; nothing else touches it.\<close>

lemma step_promise:
  assumes r: "resolvers_registered s" and j: "j < length (primaryPromises s)"
  shows "j < length (primaryPromises (step s op)) \<and>
     primaryPromises (step s op) ! j =
       (if elects op \<and> primaryPromises s ! j = None then Some True else primaryPromises s ! j)"
proof (cases "op = WaitPrimaryReady")
  case True
  then show ?thesis using j by (simp add: waitPrimaryReady_eq nth_append)
next
  case False
  have "j \<in> set (waitForPrimaryResolveFns s)"
    using r j by (simp add: resolvers_registered_def)
  then show ?thesis
    using step_not_waiting(2,3) [OF False, of s] j by simp
qed

lemma steps_promise_pending:
  assumes "resolvers_registered s" and "j < length (primaryPromises s)"
    and "\<not> list_ex elects ops"
  shows "j < length (primaryPromises (foldl step s ops)) \<and>
     primaryPromises (foldl step s ops) ! j = primaryPromises s ! j"
  using assms
proof (induction ops arbitrary: s)
  case Nil
  then show ?case by simp
next
  case (Cons op ops)
  have "j < length (primaryPromises (step s op)) \<and> primaryPromises (step s op) ! j = primaryPromises s ! j"
    using step_promise [OF Cons.prems(1,2), of op] Cons.prems(3) by simp
  then show ?case
    using Cons.IH [of "step s op"] Cons.prems(3) registered_step [OF Cons.prems(1), of op] by simp
qed

lemma steps_promise_settled:
  assumes "resolvers_registered s" and "j < length (primaryPromises s)"
    and "primaryPromises s ! j = Some v"
  shows "j < length (primaryPromises (foldl step s ops)) \<and>
     primaryPromises (foldl step s ops) ! j = Some v"
  using assms
proof (induction ops arbitrary: s)
  case Nil
  then show ?case by simp
next
  case (Cons op ops)
  have "j < length (primaryPromises (step s op)) \<and> primaryPromises (step s op) ! j = Some v"
    using step_promise [OF Cons.prems(1,2), of op] Cons.prems(3) by simp
  then show ?case
    using Cons.IH [of "step s op"] registered_step [OF Cons.prems(1), of op] by simp
qed

lemma steps_promise_true:
  assumes "resolvers_registered s" and "j < length (primaryPromises s)"
    and "primaryPromises s ! j = None \<or> primaryPromises s ! j = Some True"
  shows "j < length (primaryPromises (foldl step s ops)) \<and>
     (primaryPromises (foldl step s ops) ! j = None \<or> primaryPromises (foldl step s ops) ! j = Some True)"
  using assms
proof (induction ops arbitrary: s)
  case Nil
  then show ?case by simp
next
  case (Cons op ops)
  have "j < length (primaryPromises (step s op)) \<and>
      (primaryPromises (step s op) ! j = None \<or> primaryPromises (step s op) ! j = Some True)"
    using step_promise [OF Cons.prems(1,2), of op] Cons.prems(3) by auto
  then show ?case
    using Cons.IH [of "step s op"] registered_step [OF Cons.prems(1), of op] by simp
qed

lemma steps_promise_elected:
  assumes r: "resolvers_registered s" and j: "j < length (primaryPromises s)"
    and p: "primaryPromises s ! j = None" and l: "line_branch l = B_primary"
  shows "primaryPromises (foldl step s (ops @ Stdout l # ops')) ! j = Some True"
proof -
  define t where "t = foldl step s ops"
  have rt: "resolvers_registered t"
    unfolding t_def by (rule registered_steps [OF r])
  have jt: "j < length (primaryPromises t)"
    and vt: "primaryPromises t ! j = None \<or> primaryPromises t ! j = Some True"
    unfolding t_def using steps_promise_true [OF r j, of ops] p by simp_all
  have "primaryPromises (step t (Stdout l)) ! j = Some True"
    and "j < length (primaryPromises (step t (Stdout l)))"
    using step_promise [OF rt jt, of "Stdout l"] vt l by auto
  then have "primaryPromises (foldl step (step t (Stdout l)) ops') ! j = Some True"
    using steps_promise_settled [OF registered_step [OF rt, of "Stdout l"], of j True ops'] by simp
  then show ?thesis by (simp add: t_def)
qed


section \<open>The election line and the waiters registered before it\<close>

text \<open>The launching handle after three calls of \<^verbatim>\<open>waitPrimaryReady()\<close>, for the examples.\<close>

definition three_waiting :: MongoInstance where
  "three_waiting = foldl step launched [WaitPrimaryReady, WaitPrimaryReady, WaitPrimaryReady]"

lemma three_waiting_eq:
  "three_waiting = launched\<lparr>primaryPromises := [None, None, None], waitForPrimaryResolveFns := [0, 1, 2]\<rparr>"
  by (simp add: three_waiting_def waitPrimaryReady_eq launched_fields)

lemma three_waiting_fields:
  "primaryPromises three_waiting = [None, None, None]" "waitForPrimaryResolveFns three_waiting = [0, 1, 2]"
  "debugEnabled three_waiting = False" "isInstancePrimary three_waiting = False"
  by (simp_all add: three_waiting_eq launched_fields)

lemma launched_registered: "resolvers_registered launched"
  by (simp add: resolvers_registered_def launched_fields)

text \<open>
  C5, as amended. Each call of \<^verbatim>\<open>waitPrimaryReady()\<close> on a handle that is not primary
  creates a promise and appends its resolver at the end of \<^verbatim>\<open>waitForPrimaryResolveFns\<close>,
  so the list holds the resolvers of all promises created so far, in the order of the
  calls; the constructor establishes this and every operation preserves it. When a stdout
  line reaches the election branch, within that one call of the handler the primary flag
  is set, \<^verbatim>\<open>instancePrimary\<close> is emitted once, and then every resolver of the list is
  called with \<^verbatim>\<open>true\<close>, in the order of registration: every pending promise is
  fulfilled with \<^verbatim>\<open>true\<close> and a settled one stays as it was. The list is not emptied:
  the resolvers stay in it, and a later election line calls them again, without effect
  on the promises.
\<close>

theorem primary_election_resolves_waiters:
  assumes "resolvers_registered s" and "line_branch line = B_primary"
  shows "isInstancePrimary (stdoutHandler s line) \<and>
     effects_since s (stdoutHandler s line) =
       debug_effects s (''STDOUT: '' @ line) @ [Emit Ev_instanceSTDOUT [Str line]] @
       debug_effects s ''Calling all waitForPrimary resolve functions'' @ [Emit Ev_instancePrimary []] @
       map (\<lambda>i. PrimaryResolve i True) [0..<length (primaryPromises s)] \<and>
     length (primaryPromises (stdoutHandler s line)) = length (primaryPromises s) \<and>
     (\<forall>j<length (primaryPromises s).
        primaryPromises (stdoutHandler s line) ! j =
          Some (case primaryPromises s ! j of None \<Rightarrow> True | Some v \<Rightarrow> v)) \<and>
     waitForPrimaryResolveFns (stdoutHandler s line) = waitForPrimaryResolveFns s \<and>
     primaryPromises (stdoutHandler (stdoutHandler s line) line) = primaryPromises (stdoutHandler s line) \<and>
     (\<forall>t. resolvers_registered t \<and> \<not> isInstancePrimary t \<longrightarrow>
        waitPrimaryReady t =
          (t\<lparr>primaryPromises := primaryPromises t @ [None],
             waitForPrimaryResolveFns := waitForPrimaryResolveFns t @ [length (primaryPromises t)]\<rparr>,
           Awaiting (length (primaryPromises t))) \<and>
        resolvers_registered (fst (waitPrimaryReady t))) \<and>
     (\<forall>t op. resolvers_registered t \<longrightarrow> resolvers_registered (step t op)) \<and>
     (\<forall>iopts sopts dbg. resolvers_registered (constructor iopts sopts dbg))"
proof -
  define s' where "s' = stdoutHandler s line"
  have fns: "waitForPrimaryResolveFns s = [0..<length (primaryPromises s)]"
    using assms(1) by (simp add: resolvers_registered_def)
  have a: "isInstancePrimary s'"
    by (simp add: s'_def stdoutHandler_isInstancePrimary assms(2))
  have e: "effects_since s s' =
       debug_effects s (''STDOUT: '' @ line) @ [Emit Ev_instanceSTDOUT [Str line]] @
       debug_effects s ''Calling all waitForPrimary resolve functions'' @ [Emit Ev_instancePrimary []] @
       map (\<lambda>i. PrimaryResolve i True) [0..<length (primaryPromises s)]"
    unfolding s'_def stdoutHandler_primary_effects [OF assms(2)] fns ..
  have l: "length (primaryPromises s') = length (primaryPromises s)"
    using stdoutHandler_primaryPromises [of s line] by (simp add: s'_def)
  have n: "\<forall>j<length (primaryPromises s). primaryPromises s' ! j =
          Some (case primaryPromises s ! j of None \<Rightarrow> True | Some v \<Rightarrow> v)"
    using stdoutHandler_primaryPromises [of s line] assms(2)
    by (auto simp: s'_def fns split: option.splits)
  have w: "waitForPrimaryResolveFns s' = waitForPrimaryResolveFns s"
    by (simp add: s'_def stdoutHandler_waitForPrimaryResolveFns)
  have i: "primaryPromises (stdoutHandler s' line) = primaryPromises s'"
  proof (rule nth_equalityI)
    show "length (primaryPromises (stdoutHandler s' line)) = length (primaryPromises s')"
      using stdoutHandler_primaryPromises [of s' line] by simp
  next
    fix j
    assume "j < length (primaryPromises (stdoutHandler s' line))"
    then have j: "j < length (primaryPromises s')" "j < length (primaryPromises s)"
      using stdoutHandler_primaryPromises [of s' line] l by simp_all
    have "primaryPromises (stdoutHandler s' line) ! j =
        (if j \<in> set (waitForPrimaryResolveFns s') \<and> primaryPromises s' ! j = None
         then Some True else primaryPromises s' ! j)"
      using stdoutHandler_primaryPromises [of s' line] j(1) assms(2) by simp
    moreover have "primaryPromises s' ! j \<noteq> None"
      using n j(2) by simp
    ultimately show "primaryPromises (stdoutHandler s' line) ! j = primaryPromises s' ! j"
      by simp
  qed
  have r: "\<forall>t. resolvers_registered t \<and> \<not> isInstancePrimary t \<longrightarrow>
        waitPrimaryReady t =
          (t\<lparr>primaryPromises := primaryPromises t @ [None],
             waitForPrimaryResolveFns := waitForPrimaryResolveFns t @ [length (primaryPromises t)]\<rparr>,
           Awaiting (length (primaryPromises t))) \<and>
        resolvers_registered (fst (waitPrimaryReady t))"
  proof (intro allI impI conjI)
    fix t
    assume "resolvers_registered t \<and> \<not> isInstancePrimary t"
    then show "waitPrimaryReady t =
          (t\<lparr>primaryPromises := primaryPromises t @ [None],
             waitForPrimaryResolveFns := waitForPrimaryResolveFns t @ [length (primaryPromises t)]\<rparr>,
           Awaiting (length (primaryPromises t)))"
      by (simp add: waitPrimaryReady_eq)
  next
    fix t
    assume "resolvers_registered t \<and> \<not> isInstancePrimary t"
    then show "resolvers_registered (fst (waitPrimaryReady t))"
      using registered_step [of t WaitPrimaryReady] by simp
  qed
  have p: "\<forall>t op. resolvers_registered t \<longrightarrow> resolvers_registered (step t op)"
    using registered_step by blast
  have c: "\<forall>iopts sopts dbg. resolvers_registered (constructor iopts sopts dbg)"
    using registered_constructor by blast
  show ?thesis
    unfolding s'_def [symmetric]
    by (intro conjI) (rule a, rule e, rule l, rule n, rule w, rule i, rule r, rule p, rule c)
qed

theorem primary_election_resolves_waiters_witness:
  "snd (waitPrimaryReady launched) = Awaiting 0 \<and>
   snd (waitPrimaryReady (fst (waitPrimaryReady launched))) = Awaiting 1 \<and>
   isInstancePrimary (stdoutHandler three_waiting
      ''transition to primary complete; database writes are now permitted'') \<and>
   effects_since three_waiting (stdoutHandler three_waiting
      ''transition to primary complete; database writes are now permitted'') =
     [Emit Ev_instanceSTDOUT [Str ''transition to primary complete; database writes are now permitted''],
      Emit Ev_instancePrimary [], PrimaryResolve 0 True, PrimaryResolve 1 True, PrimaryResolve 2 True] \<and>
   length (primaryPromises (stdoutHandler three_waiting
      ''transition to primary complete; database writes are now permitted'')) = 3 \<and>
   primaryPromises (stdoutHandler three_waiting
      ''transition to primary complete; database writes are now permitted'') ! 0 = Some True \<and>
   primaryPromises (stdoutHandler three_waiting
      ''transition to primary complete; database writes are now permitted'') ! 1 = Some True \<and>
   primaryPromises (stdoutHandler three_waiting
      ''transition to primary complete; database writes are now permitted'') ! 2 = Some True"
proof -
  define L where "L = ''transition to primary complete; database writes are now permitted''"
  have b: "line_branch L = B_primary"
    unfolding L_def by (rule branch_examples)
  have r3: "resolvers_registered three_waiting"
    unfolding three_waiting_def by (rule registered_steps [OF launched_registered])
  note t = primary_election_resolves_waiters [OF r3 b]
  note t1 = t [THEN conjunct1]
  note t2 = t [THEN conjunct2, THEN conjunct1]
  note t3 = t [THEN conjunct2, THEN conjunct2, THEN conjunct1]
  note t4 = t [THEN conjunct2, THEN conjunct2, THEN conjunct2, THEN conjunct1]
  have u: "[0..<3] = [0, 1, 2]"
    by (simp add: upt_rec)
  have e: "effects_since three_waiting (stdoutHandler three_waiting L) =
     [Emit Ev_instanceSTDOUT [Str L], Emit Ev_instancePrimary [],
      PrimaryResolve 0 True, PrimaryResolve 1 True, PrimaryResolve 2 True]"
    using t2 by (simp add: three_waiting_fields debug_effects_def u)
  have l: "length (primaryPromises (stdoutHandler three_waiting L)) = 3"
    using t3 by (simp add: three_waiting_fields)
  have n: "primaryPromises (stdoutHandler three_waiting L) ! 0 = Some True"
    "primaryPromises (stdoutHandler three_waiting L) ! 1 = Some True"
    "primaryPromises (stdoutHandler three_waiting L) ! 2 = Some True"
    using t4 by (simp_all add: three_waiting_fields)
  have w: "snd (waitPrimaryReady launched) = Awaiting 0"
    "snd (waitPrimaryReady (fst (waitPrimaryReady launched))) = Awaiting 1"
    by (simp_all add: waitPrimaryReady_eq launched_fields)
  show ?thesis
    unfolding L_def [symmetric]
    by (intro conjI) (rule w(1), rule w(2), rule t1, rule e, rule l, rule n(1), rule n(2), rule n(3))
qed

text \<open>
  C5 as stated fails in one part: the list is not drained. After the election line the
  three resolvers registered before it are still in the list.
\<close>

theorem primary_waiters_list_not_drained:
  "waitForPrimaryResolveFns three_waiting = [0, 1, 2] \<and>
   line_branch ''transition to primary complete; database writes are now permitted'' = B_primary \<and>
   waitForPrimaryResolveFns (stdoutHandler three_waiting
      ''transition to primary complete; database writes are now permitted'') = [0, 1, 2]"
  by (simp add: branch_examples stdoutHandler_waitForPrimaryResolveFns three_waiting_fields)


section \<open>A waiter and the failure of the instance\<close>

lemma waiting_step: "waitPrimaryReady launched = (waiting, Awaiting 0)"
  by (simp add: waiting_eq waitPrimaryReady_eq launched_fields)

text \<open>
  C2, as amended. The promise a call of \<^verbatim>\<open>waitPrimaryReady()\<close> returns on a handle that
  is not primary is pending, and its resolver is in the list. It stays pending through
  every sequence of operations in which no stdout line reaches the election branch,
  failure lines, process errors, the close of the process and \<^verbatim>\<open>kill()\<close> included:
  nothing rejects it and nothing else resolves it. Once a stdout line has reached the
  election branch it is fulfilled with \<^verbatim>\<open>true\<close>, and it stays so whatever follows.
\<close>

theorem primary_waiter_resolved_only_by_election:
  assumes "resolvers_registered s" and "waitPrimaryReady s = (s1, Awaiting i)"
  shows "i < length (primaryPromises s1) \<and> primaryPromises s1 ! i = None \<and>
     i \<in> set (waitForPrimaryResolveFns s1) \<and>
     (\<forall>ops. \<not> list_ex elects ops \<longrightarrow> primaryPromises (foldl step s1 ops) ! i = None) \<and>
     (\<forall>ops l ops'. line_branch l = B_primary \<longrightarrow>
        primaryPromises (foldl step s1 (ops @ Stdout l # ops')) ! i = Some True)"
proof -
  have np: "\<not> isInstancePrimary s"
    using assms(2) by (auto simp: waitPrimaryReady_eq split: if_splits)
  have i: "i = length (primaryPromises s)"
    and s1: "s1 = s\<lparr>primaryPromises := primaryPromises s @ [None],
        waitForPrimaryResolveFns := waitForPrimaryResolveFns s @ [length (primaryPromises s)]\<rparr>"
    using assms(2) np by (auto simp: waitPrimaryReady_eq)
  have r1: "resolvers_registered s1"
    using registered_step [OF assms(1), of WaitPrimaryReady] assms(2) by simp
  have a: "i < length (primaryPromises s1)"
    by (simp add: i s1)
  have b: "primaryPromises s1 ! i = None"
    by (simp add: i s1)
  have c: "i \<in> set (waitForPrimaryResolveFns s1)"
    by (simp add: i s1)
  have d: "\<forall>ops. \<not> list_ex elects ops \<longrightarrow> primaryPromises (foldl step s1 ops) ! i = None"
    using steps_promise_pending [OF r1 a] b by simp
  have e: "\<forall>ops l ops'. line_branch l = B_primary \<longrightarrow>
        primaryPromises (foldl step s1 (ops @ Stdout l # ops')) ! i = Some True"
    using steps_promise_elected [OF r1 a b] by blast
  show ?thesis
    by (intro conjI) (rule a, rule b, rule c, rule d, rule e)
qed

theorem primary_waiter_resolved_only_by_election_witness:
  "snd (waitPrimaryReady launched) = Awaiting 0 \<and>
   primaryPromises (fst (waitPrimaryReady launched)) ! 0 = None \<and>
   primaryPromises (foldl step (fst (waitPrimaryReady launched))
      [Stderr ''warning'', Stdout ''shutting down with code:0'', ProcessClose (Some 0),
       Kill prompt_exit no_exit]) ! 0 = None \<and>
   primaryPromises (foldl step (fst (waitPrimaryReady launched))
      [Stdout ''waiting for connections on port 27017'',
       Stdout ''transition to primary complete; database writes are now permitted'',
       Stdout ''shutting down with code:0'', Kill prompt_exit prompt_exit]) ! 0 = Some True"
proof -
  note t = primary_waiter_resolved_only_by_election [OF launched_registered waiting_step]
  note t2 = t [THEN conjunct2, THEN conjunct1]
  note t4 = t [THEN conjunct2, THEN conjunct2, THEN conjunct2, THEN conjunct1, rule_format]
  note t5 = t [THEN conjunct2, THEN conjunct2, THEN conjunct2, THEN conjunct2, rule_format]
  have f: "fst (waitPrimaryReady launched) = waiting" "snd (waitPrimaryReady launched) = Awaiting 0"
    by (simp_all add: waiting_step)
  have n: "\<not> list_ex elects [Stderr ''warning'', Stdout ''shutting down with code:0'',
       ProcessClose (Some 0), Kill prompt_exit no_exit]"
    by (simp add: branch_examples)
  have p: "primaryPromises (foldl step waiting
      ([Stdout ''waiting for connections on port 27017''] @
       Stdout ''transition to primary complete; database writes are now permitted'' #
       [Stdout ''shutting down with code:0'', Kill prompt_exit prompt_exit])) ! 0 = Some True"
    by (rule t5) (rule branch_examples)
  show ?thesis
    unfolding f using t2 t4 [OF n] p by simp
qed

text \<open>
  C2 as stated fails in its failure half: a waiter is not resolved when the instance
  fails. The waiter registered before the bind-conflict line is still pending after the
  launch has been rejected, the process has closed and \<^verbatim>\<open>kill()\<close> has run, whatever the
  processes answer to the signals.
\<close>

theorem primary_waiter_left_pending_on_failure:
  "snd (waitPrimaryReady launched) = Awaiting 0 \<and>
   launch (foldl step (fst (waitPrimaryReady launched))
      [Stdout ''addr already in use'', ProcessClose (Some 48)]) =
     Some (Rejected ''Port 27017 already in use'') \<and>
   (\<forall>child_answers killer_answers.
      launch (foldl step (fst (waitPrimaryReady launched))
        [Stdout ''addr already in use'', ProcessClose (Some 48), Kill child_answers killer_answers]) =
        Some (Rejected ''Port 27017 already in use'') \<and>
      primaryPromises (foldl step (fst (waitPrimaryReady launched))
        [Stdout ''addr already in use'', ProcessClose (Some 48), Kill child_answers killer_answers]) =
        [None])"
proof -
  have f: "fst (waitPrimaryReady launched) = waiting" "snd (waitPrimaryReady launched) = Awaiting 0"
    by (simp_all add: waiting_step)
  define A where "A = stdoutHandler waiting ''addr already in use''"
  have m: "failure_message (instanceOpts waiting) (line_branch ''addr already in use'') =
      Some ''Port 27017 already in use''"
    by (simp add: branch_examples failure_message_def waiting_fields example_port_message)
  have "A = waiting\<lparr>trace := trace waiting @ debug_effects waiting (''STDOUT: '' @ ''addr already in use'') @
          [Emit Ev_instanceSTDOUT [Str ''addr already in use'']] @
          debug_effects waiting (''MongodbInstance: Instance has failed: '' @ ''Port 27017 already in use'') @
          (case killerProcess waiting of None \<Rightarrow> [] | Some k \<Rightarrow> [ProcessKill k SIGTERM]) @
          [LaunchReject ''Port 27017 already in use''],
       launch := (if launch waiting = Some Pending then Some (Rejected ''Port 27017 already in use'')
                  else launch waiting)\<rparr>"
    unfolding A_def
    by (rule stdoutHandler_failure_eq [OF _ m]) (simp_all add: waiting_fields branch_examples)
  then have A: "launch A = Some (Rejected ''Port 27017 already in use'')" "primaryPromises A = [None]"
    by (simp_all add: waiting_fields)
  show ?thesis
    unfolding f by (simp add: A_def [symmetric] kill_fields other_handler_fields A)
qed

end
